theory Spec2Isabelle
  imports Main "HOL-Library.AList"
begin

section \<open>Data model (src/types/modules.types.ts)\<close>

text \<open>
  The three interfaces of \<^verbatim>\<open>modules.types.ts\<close>. Field names carry a prefix
  (\<open>p_\<close>, \<open>i_\<close>, \<open>m_\<close>, \<open>pm_\<close>) because \<open>name\<close> and \<open>dependencies\<close> occur in
  several interfaces. An optional field \<^verbatim>\<open>f?: T\<close> is a \<open>T option\<close>.
\<close>

datatype ProviderType = Class | Value | Factory

record ProviderMetadata =
  p_name :: string
  p_type :: ProviderType
  p_dependencies :: "string list"
  p_isInjectable :: bool
  p_provide :: "string option"
  p_useClass :: "string option"
  p_useValue :: "string option"
  p_useFactory :: "string option"
  p_inject :: "string list option"

text \<open>
  \<^verbatim>\<open>ImportMetadata.module\<close> is a \<^verbatim>\<open>Partial<ModuleMetadata>\<close>; the linker fills exactly
  \<^verbatim>\<open>name\<close>, \<^verbatim>\<open>providers\<close> and \<^verbatim>\<open>controllers\<close>. Its \<^verbatim>\<open>providers\<close> field is not a copy: it
  is the very array object held by the imported module, whose elements the linker
  mutates afterwards. Every module of the mapping owns its own array (each is built by
  one \<^verbatim>\<open>map\<close> call in \<^verbatim>\<open>enrichWithSecondLevelDependencies\<close>), so the address of an array
  is the position of its owner in the mapping, and \<open>pm_providers\<close> stores that address.
\<close>

record PartialModule =
  pm_name :: string
  pm_providers :: nat
  pm_controllers :: "string list"

record ImportMetadata =
  i_name :: string
  i_path :: "string option"
  i_isAsync :: "bool option"
  i_dependencies :: "string list option"
  i_isForwardReference :: "bool option"
  i_module :: "PartialModule option"

record ModuleMetadata =
  m_name :: string
  m_filePath :: "string option"
  m_imports :: "ImportMetadata list"
  m_exports :: "string list"
  m_providers :: "ProviderMetadata list"
  m_controllers :: "string list"
  m_entityCount :: nat

text \<open>
  \<^verbatim>\<open>Map<string, ModuleMetadata>\<close>: the entries in insertion order. \<open>modValues\<close> is
  \<^verbatim>\<open>Array.from(this.modules.values())\<close>.
\<close>

type_synonym Graph = "(string \<times> ModuleMetadata) list"

definition modValues :: "Graph \<Rightarrow> ModuleMetadata list" where
  "modValues g = map snd g"

text \<open>What a snapshot's \<^verbatim>\<open>providers\<close> field shows when it is read in the mapping \<open>g\<close>.\<close>

definition snapshotProviders :: "Graph \<Rightarrow> PartialModule \<Rightarrow> ProviderMetadata list" where
  "snapshotProviders g s = m_providers (modValues g ! pm_providers s)"

section \<open>Cross-file linking (DependencyAnalyzer)\<close>

text \<open>
  \<^verbatim>\<open>findProviderByName\<close>: the modules in mapping order, in each the first provider
  with \<^verbatim>\<open>p.name === name || p.provide === name\<close>.
\<close>

fun findProviderByName :: "ModuleMetadata list \<Rightarrow> string \<Rightarrow> ProviderMetadata option" where
  "findProviderByName [] n = None"
| "findProviderByName (m # ms) n =
     (case find (\<lambda>p. p_name p = n \<or> p_provide p = Some n) (m_providers m) of
        Some p \<Rightarrow> Some p
      | None \<Rightarrow> findProviderByName ms n)"

text \<open>\<^verbatim>\<open>resolvedProvider?.name ?? dep\<close>\<close>

definition resolveDep :: "ModuleMetadata list \<Rightarrow> string \<Rightarrow> string" where
  "resolveDep ms dep = (case findProviderByName ms dep of Some r \<Rightarrow> p_name r | None \<Rightarrow> dep)"

text \<open>
  \<^verbatim>\<open>Array.from(this.modules.values()).find((m) => m.name === imp.name)\<close>, returning the
  module together with its position (the address of its arrays).
\<close>

fun findModule :: "string \<Rightarrow> ModuleMetadata list \<Rightarrow> nat \<Rightarrow> (nat \<times> ModuleMetadata) option" where
  "findModule n [] i = None"
| "findModule n (m # ms) i = (if m_name m = n then Some (i, m) else findModule n ms (Suc i))"

definition linkImport :: "ModuleMetadata list \<Rightarrow> ImportMetadata \<Rightarrow> ImportMetadata" where
  "linkImport ms imp =
     (case findModule (i_name imp) ms 0 of
        None \<Rightarrow> imp\<lparr>i_path := None, i_module := None\<rparr>
      | Some (a, importedModule) \<Rightarrow>
          imp\<lparr>i_path := m_filePath importedModule,
              i_module := Some \<lparr>pm_name = m_name importedModule,
                                 pm_providers = a,
                                 pm_controllers = m_controllers importedModule\<rparr>\<rparr>)"

text \<open>
  \<^verbatim>\<open>module.providers.forEach((provider) => { provider.dependencies = ... })\<close> for the
  module at the current position. \<open>pre\<close> and \<open>post\<close> are the modules before and after
  it, \<open>done\<close> the providers of the array already rewritten, and every lookup reads the
  mapping as it is at that moment.
\<close>

fun resolveProviders ::
  "ModuleMetadata list \<Rightarrow> ModuleMetadata \<Rightarrow> ModuleMetadata list \<Rightarrow>
   ProviderMetadata list \<Rightarrow> ProviderMetadata list \<Rightarrow> ProviderMetadata list" where
  "resolveProviders pre m post done [] = done"
| "resolveProviders pre m post done (p # todo) =
     (let cur = pre @ [m\<lparr>m_providers := done @ p # todo\<rparr>] @ post;
          p' = p\<lparr>p_dependencies := map (resolveDep cur) (p_dependencies p)\<rparr>
      in resolveProviders pre m post (done @ [p']) todo)"

text \<open>
  \<^verbatim>\<open>this.modules.forEach((module) => { ... })\<close>: \<open>pre\<close> holds the entries already
  visited (and mutated), the second argument those still to visit.
\<close>

fun resolveLoop :: "Graph \<Rightarrow> Graph \<Rightarrow> Graph" where
  "resolveLoop pre [] = pre"
| "resolveLoop pre ((k, m) # post) =
     (let cur = modValues pre @ [m] @ modValues post;
          m1 = m\<lparr>m_imports := map (linkImport cur) (m_imports m)\<rparr>;
          ps = resolveProviders (modValues pre) m1 (modValues post) [] (m_providers m1)
      in resolveLoop (pre @ [(k, m1\<lparr>m_providers := ps\<rparr>)]) post)"

definition resolveModuleDependencies :: "Graph \<Rightarrow> Graph" where
  "resolveModuleDependencies g = resolveLoop [] g"

subsection \<open>The linking pass in closed form\<close>

text \<open>
  The pass only ever writes \<^verbatim>\<open>imports\<close> fields and \<^verbatim>\<open>dependencies\<close> fields, and its
  lookups only read module names, file paths, controller lists and the \<^verbatim>\<open>name\<close> and
  \<^verbatim>\<open>provide\<close> fields of providers. \<open>modIds\<close> collects what the lookups read;
  \<open>linkModule\<close> is the effect of the pass on one module when every lookup is made in a
  fixed list of modules. \<open>resolveModuleDependencies_closed\<close> below proves that the
  in-place loop computes exactly that.
\<close>

definition provIds :: "ProviderMetadata \<Rightarrow> string \<times> string option" where
  "provIds p = (p_name p, p_provide p)"

definition modIds ::
  "ModuleMetadata \<Rightarrow> string \<times> string option \<times> string list \<times> (string \<times> string option) list" where
  "modIds m = (m_name m, m_filePath m, m_controllers m, map provIds (m_providers m))"

definition resolveProvider :: "ModuleMetadata list \<Rightarrow> ProviderMetadata \<Rightarrow> ProviderMetadata" where
  "resolveProvider ms p = p\<lparr>p_dependencies := map (resolveDep ms) (p_dependencies p)\<rparr>"

definition linkModule :: "ModuleMetadata list \<Rightarrow> ModuleMetadata \<Rightarrow> ModuleMetadata" where
  "linkModule ms m = m\<lparr>m_imports := map (linkImport ms) (m_imports m),
                        m_providers := map (resolveProvider ms) (m_providers m)\<rparr>"

definition linkEntry ::
  "ModuleMetadata list \<Rightarrow> string \<times> ModuleMetadata \<Rightarrow> string \<times> ModuleMetadata" where
  "linkEntry ms e = (fst e, linkModule ms (snd e))"

subsection \<open>The linking rules in the words of the specification\<close>

text \<open>
  Section 4.3 of the specification: search all modules' provider lists, in mapping
  order, for a provider whose \<^verbatim>\<open>name\<close> or \<^verbatim>\<open>provide\<close> equals the entry; if found, the
  entry becomes that provider's canonical \<^verbatim>\<open>name\<close>, otherwise it stays as it is.
\<close>

definition firstProvider :: "Graph \<Rightarrow> string \<Rightarrow> ProviderMetadata option" where
  "firstProvider g n =
     find (\<lambda>p. p_name p = n \<or> p_provide p = Some n) (concat (map m_providers (modValues g)))"

definition canonicalName :: "Graph \<Rightarrow> string \<Rightarrow> string" where
  "canonicalName g dep = (case firstProvider g dep of Some p \<Rightarrow> p_name p | None \<Rightarrow> dep)"

text \<open>
  Every provider's injection token, when it has one, is its name. Both constructors of
  provider records in the extractor (\<^verbatim>\<open>createProviderMetadata\<close> and
  \<^verbatim>\<open>parseProviderObjectLiteral\<close>) build records of this shape; the interface
  \<^verbatim>\<open>ProviderMetadata\<close> itself does not require it.
\<close>

definition tokensAreNames :: "Graph \<Rightarrow> bool" where
  "tokensAreNames g =
     (\<forall>m \<in> set (modValues g). \<forall>p \<in> set (m_providers m).
        p_provide p = None \<or> p_provide p = Some (p_name p))"

text \<open>
  Section 4.3, import linking: the import \<open>imp\<close> is linked to the module \<open>t\<close> of the
  mapping \<open>g\<close> when its path is the file path of \<open>t\<close> and its module snapshot holds the
  name, the providers and the controllers of \<open>t\<close>.
\<close>

definition linkedTo :: "Graph \<Rightarrow> ImportMetadata \<Rightarrow> ModuleMetadata \<Rightarrow> bool" where
  "linkedTo g imp t =
     (i_path imp = m_filePath t \<and>
      (case i_module imp of
         None \<Rightarrow> False
       | Some s \<Rightarrow> pm_name s = m_name t \<and> snapshotProviders g s = m_providers t \<and>
                   pm_controllers s = m_controllers t))"

section \<open>Syntax trees\<close>

text \<open>
  The part of the compiler API's syntax tree that the extractor inspects. Every node
  carries its source text first, which is what \<^verbatim>\<open>getText()\<close> returns. \<open>Identifier\<close> and
  \<open>StringLiteral\<close> carry their \<^verbatim>\<open>text\<close> as well: the name with its unicode escapes
  resolved, and the value between the quotes; for an identifier written without escapes
  the two strings are the same. The body of an arrow function is a node: an expression
  for a concise body, a \<open>Block\<close> of statements otherwise; the body of a function
  expression is a \<open>Block\<close>. \<open>ReturnStatement\<close> carries the returned expression, when
  there is one. \<open>OtherNode\<close> and \<open>OtherElement\<close> stand for every other kind of node and
  of object-literal member; \<open>OtherPropertyName\<close> for a property name that is not an
  identifier. The extractor's \<^verbatim>\<open>ts.is...\<close> tests accept none of \<open>FunctionExpression\<close>,
  \<open>Block\<close>, \<open>ReturnStatement\<close> and \<open>OtherNode\<close>.
\<close>

datatype PropertyName = IdentifierName string | OtherPropertyName

datatype Node =
    Identifier string string
  | StringLiteral string string
  | ArrayLiteralExpression string "Node list"
  | ObjectLiteralExpression string "ObjectLiteralElement list"
  | CallExpression string Node "Node list"
  | PropertyAccessExpression string Node string
  | ArrowFunction string Node
  | FunctionExpression string Node
  | Block string "Node list"
  | ReturnStatement string "Node option"
  | OtherNode string
and ObjectLiteralElement =
    PropertyAssignment PropertyName Node
  | OtherElement

fun getText :: "Node \<Rightarrow> string" where
  "getText (Identifier t s) = t"
| "getText (StringLiteral t s) = t"
| "getText (ArrayLiteralExpression t es) = t"
| "getText (ObjectLiteralExpression t ps) = t"
| "getText (CallExpression t f args) = t"
| "getText (PropertyAccessExpression t e n) = t"
| "getText (ArrowFunction t b) = t"
| "getText (FunctionExpression t b) = t"
| "getText (Block t ss) = t"
| "getText (ReturnStatement t e) = t"
| "getText (OtherNode t) = t"

text \<open>
  Top-level statements. A parameter is represented by its type annotation, a type
  reference by the source text of its type name; a constructor by its parameters; a
  class by its name, the expressions of its decorators and its members; an import
  declaration by its clause (default binding, named or namespace bindings) and its
  module specifier.
\<close>

datatype TypeNode = TypeReferenceNode string | OtherTypeNode

datatype ClassElement = ConstructorDeclaration "TypeNode option list" | OtherClassElement

record ClassDeclaration =
  c_name :: "string option"
  c_decorators :: "Node list"
  c_members :: "ClassElement list"

datatype NamedImportBindings = NamedImports "string list" | NamespaceImport string

record ImportClause =
  ic_name :: "string option"
  ic_namedBindings :: "NamedImportBindings option"

record ImportDeclaration =
  id_importClause :: "ImportClause option"
  id_moduleSpecifier :: Node

datatype Statement =
    ClassDeclarationStatement ClassDeclaration
  | ImportDeclarationStatement ImportDeclaration
  | OtherStatement

record SourceFile =
  fileName :: string
  statements :: "Statement list"

section \<open>Single-file extraction (AstParser)\<close>

text \<open>
  The mutable fields of a parser instance. Both caches are \<^verbatim>\<open>Map\<close>s: association lists
  in insertion order, written with \<open>AList.update\<close> (\<^verbatim>\<open>Map.set\<close>) and read with \<open>map_of\<close>
  (\<^verbatim>\<open>Map.get\<close>).
\<close>

type_synonym ProviderCache = "(string \<times> ProviderMetadata) list"

record ParserState =
  uniqueIdCounter :: nat
  moduleCache :: "(string \<times> ModuleMetadata) list"
  providerCache :: ProviderCache

definition initialState :: ParserState where
  "initialState = \<lparr>uniqueIdCounter = 1, moduleCache = [], providerCache = []\<rparr>"

text \<open>
  The type guards of the compiler API are functions of the shape
  \<^verbatim>\<open>function isArrayLiteralExpression(node) { return node.kind === 210; }\<close>: they read
  \<^verbatim>\<open>node.kind\<close>, so a guard applied to \<^verbatim>\<open>undefined\<close> raises a \<^verbatim>\<open>TypeError\<close>. The
  extractor tests for \<^verbatim>\<open>undefined\<close> before the guard in \<^verbatim>\<open>parseModuleDecorator\<close>
  (\<^verbatim>\<open>!argument || ...\<close>) and in \<^verbatim>\<open>parseAsyncImport\<close> (\<^verbatim>\<open>arrowFunc && ...\<close>); in
  \<^verbatim>\<open>extractEntityCount\<close> it applies the guard to the first element destructured from
  \<^verbatim>\<open>element.arguments\<close>, which is \<^verbatim>\<open>undefined\<close> for a call without arguments.
\<close>

datatype error = TypeError

subsection \<open>Strings\<close>

text \<open>Decimal rendering of the counter inside a template literal.\<close>

definition digitChar :: "nat \<Rightarrow> char" where
  "digitChar d = ''0123456789'' ! d"

fun showNat :: "nat \<Rightarrow> string" where
  "showNat n = (if n < 10 then [digitChar n] else showNat (n div 10) @ [digitChar (n mod 10)])"

declare showNat.simps [simp del]

text \<open>\<^verbatim>\<open>String.prototype.includes\<close> and \<^verbatim>\<open>startsWith\<close>.\<close>

definition startsWith :: "string \<Rightarrow> string \<Rightarrow> bool" where
  "startsWith s pre = (take (length pre) s = pre)"

fun includes_str :: "string \<Rightarrow> string \<Rightarrow> bool" where
  "includes_str [] sub = (sub = [])"
| "includes_str (c # cs) sub = (startsWith (c # cs) sub \<or> includes_str cs sub)"

text \<open>\<^verbatim>\<open>path.split('/').pop()\<close>: what follows the last slash.\<close>

definition lastSegment :: "string \<Rightarrow> string" where
  "lastSegment path = rev (takeWhile (\<lambda>c. c \<noteq> CHR ''/'') (rev path))"

text \<open>\<^verbatim>\<open>[...new Set(xs)]\<close>: the elements of \<open>xs\<close> in order of first occurrence.\<close>

fun uniq :: "'a list \<Rightarrow> 'a list" where
  "uniq [] = []"
| "uniq (x # xs) = x # uniq (filter (\<lambda>y. y \<noteq> x) xs)"

subsection \<open>Decorators and classes\<close>

definition generateUniqueName :: "string \<Rightarrow> ParserState \<Rightarrow> string \<times> ParserState" where
  "generateUniqueName prefix st =
     (prefix @ ''_'' @ showNat (uniqueIdCounter st),
      st\<lparr>uniqueIdCounter := uniqueIdCounter st + 1\<rparr>)"

definition findDecorator :: "ClassDeclaration \<Rightarrow> string \<Rightarrow> Node option" where
  "findDecorator node n =
     find (\<lambda>decorator.
             case decorator of
               CallExpression t expression args \<Rightarrow>
                 (case expression of
                    Identifier t' s \<Rightarrow> s = n
                  | PropertyAccessExpression t' e pn \<Rightarrow> pn = n
                  | _ \<Rightarrow> False)
             | _ \<Rightarrow> False)
          (c_decorators node)"

definition hasDecorator :: "ClassDeclaration \<Rightarrow> string \<Rightarrow> bool" where
  "hasDecorator node n = (findDecorator node n \<noteq> None)"

definition isQualifyingModuleClass :: "Statement \<Rightarrow> bool" where
  "isQualifyingModuleClass stmt =
     (case stmt of
        ClassDeclarationStatement c \<Rightarrow>
          (case c_name c of
             None \<Rightarrow> False
           | Some n \<Rightarrow> n \<noteq> [] \<and> hasDecorator c ''Module''
                       \<and> \<not> includes_str n ''Unknown'' \<and> \<not> includes_str n ''Angular'')
      | _ \<Rightarrow> False)"

definition findModuleClass :: "SourceFile \<Rightarrow> ClassDeclaration option" where
  "findModuleClass sf =
     (case find isQualifyingModuleClass (statements sf) of
        Some (ClassDeclarationStatement c) \<Rightarrow> Some c
      | _ \<Rightarrow> None)"

definition findClassDeclaration :: "SourceFile \<Rightarrow> string \<Rightarrow> ClassDeclaration option" where
  "findClassDeclaration sf className =
     (case find (\<lambda>stmt. case stmt of
                          ClassDeclarationStatement c \<Rightarrow> c_name c = Some className
                        | _ \<Rightarrow> False)
                (statements sf) of
        Some (ClassDeclarationStatement c) \<Rightarrow> Some c
      | _ \<Rightarrow> None)"

definition extractConstructorDependencies :: "ClassDeclaration \<Rightarrow> string list" where
  "extractConstructorDependencies node =
     (case find (\<lambda>member. case member of ConstructorDeclaration ps \<Rightarrow> True | _ \<Rightarrow> False)
                (c_members node) of
        Some (ConstructorDeclaration parameters) \<Rightarrow>
          concat (map (\<lambda>param. case param of Some (TypeReferenceNode typeName) \<Rightarrow> [typeName]
                                             | _ \<Rightarrow> [])
                      parameters)
      | _ \<Rightarrow> [])"

definition isClassInjectable :: "SourceFile \<Rightarrow> string \<Rightarrow> bool" where
  "isClassInjectable sf className =
     (case findClassDeclaration sf className of
        Some classDecl \<Rightarrow> hasDecorator classDecl ''Injectable''
      | None \<Rightarrow> False)"

subsection \<open>Object-literal properties\<close>

text \<open>
  \<^verbatim>\<open>findPropertyAssignment\<close> returns the first property assignment whose name is the
  identifier \<^verbatim>\<open>propertyName\<close>; every caller reads only its initializer, which is what
  the model returns.
\<close>

definition findPropertyAssignment :: "ObjectLiteralElement list \<Rightarrow> string \<Rightarrow> Node option" where
  "findPropertyAssignment properties propertyName =
     (case find (\<lambda>prop. case prop of
                          PropertyAssignment (IdentifierName n) init \<Rightarrow> n = propertyName
                        | _ \<Rightarrow> False)
                properties of
        Some (PropertyAssignment pn init) \<Rightarrow> Some init
      | _ \<Rightarrow> None)"

definition getPropertyValue :: "ObjectLiteralElement list \<Rightarrow> string \<Rightarrow> string option" where
  "getPropertyValue properties propertyName =
     (case findPropertyAssignment properties propertyName of
        None \<Rightarrow> None
      | Some (Identifier t s) \<Rightarrow> Some s
      | Some (StringLiteral t s) \<Rightarrow> Some s
      | Some other \<Rightarrow> None)"

definition identifierTexts :: "Node list \<Rightarrow> string list" where
  "identifierTexts elements =
     concat (map (\<lambda>e. case e of Identifier t s \<Rightarrow> [s] | _ \<Rightarrow> []) elements)"

definition getArrayPropertyValue :: "ObjectLiteralElement list \<Rightarrow> string \<Rightarrow> string list option" where
  "getArrayPropertyValue properties propertyName =
     (case findPropertyAssignment properties propertyName of
        Some (ArrayLiteralExpression t elements) \<Rightarrow> Some (identifierTexts elements)
      | _ \<Rightarrow> None)"

text \<open>The elements of the array literal assigned to a field, or nothing.\<close>

definition arrayField :: "ObjectLiteralElement list \<Rightarrow> string \<Rightarrow> Node list option" where
  "arrayField properties propertyName =
     (case findPropertyAssignment properties propertyName of
        Some (ArrayLiteralExpression t elements) \<Rightarrow> Some elements
      | _ \<Rightarrow> None)"

text \<open>JavaScript truthiness of a \<^verbatim>\<open>string | undefined\<close>.\<close>

definition truthy :: "string option \<Rightarrow> bool" where
  "truthy v = (case v of None \<Rightarrow> False | Some s \<Rightarrow> s \<noteq> [])"

subsection \<open>Imports\<close>

definition importMatches :: "string \<Rightarrow> Statement \<Rightarrow> bool" where
  "importMatches txt stmt =
     (case stmt of
        ImportDeclarationStatement d \<Rightarrow>
          (case id_importClause d of
             None \<Rightarrow> False
           | Some importClause \<Rightarrow>
               if ic_name importClause = Some txt then True
               else (case ic_namedBindings importClause of
                       None \<Rightarrow> False
                     | Some (NamedImports names) \<Rightarrow> txt \<in> set names
                     | Some (NamespaceImport n) \<Rightarrow> n = txt))
      | _ \<Rightarrow> False)"

definition resolveImportPath :: "SourceFile \<Rightarrow> Node \<Rightarrow> string option" where
  "resolveImportPath sf identifier =
     (case find (importMatches (getText identifier)) (statements sf) of
        Some (ImportDeclarationStatement importDecl) \<Rightarrow>
          (case id_moduleSpecifier importDecl of
             StringLiteral t path \<Rightarrow>
               Some (if startsWith path ''@nestjs/'' then lastSegment path else path)
           | _ \<Rightarrow> None)
      | _ \<Rightarrow> None)"

text \<open>\<^verbatim>\<open>createImportMetadata(identifier)\<close>, given the identifier's source text and \<^verbatim>\<open>text\<close>.\<close>

definition createImportMetadata :: "SourceFile \<Rightarrow> string \<Rightarrow> string \<Rightarrow> ImportMetadata" where
  "createImportMetadata sf t identifier =
     \<lparr>i_name = identifier, i_path = resolveImportPath sf (Identifier t identifier),
      i_isAsync = Some False, i_dependencies = Some [], i_isForwardReference = None,
      i_module = None\<rparr>"

definition createUnknownImport :: "ParserState \<Rightarrow> ImportMetadata \<times> ParserState" where
  "createUnknownImport st =
     (\<lparr>i_name = ''UnknownModule_'' @ showNat (uniqueIdCounter st), i_path = None,
       i_isAsync = Some False, i_dependencies = Some [], i_isForwardReference = None,
       i_module = None\<rparr>,
      st\<lparr>uniqueIdCounter := uniqueIdCounter st + 1\<rparr>)"

text \<open>
  \<^verbatim>\<open>parseAsyncImport(callExpression)\<close>, given the callee (\<^verbatim>\<open>callExpression.expression\<close>)
  and the arguments of the call.
\<close>

definition parseAsyncImport ::
  "SourceFile \<Rightarrow> ParserState \<Rightarrow> Node \<Rightarrow> Node list \<Rightarrow> ImportMetadata \<times> ParserState" where
  "parseAsyncImport sf st expression arguments =
     (case expression of
        Identifier t callee \<Rightarrow>
          if callee = ''forwardRef'' then
            (case arguments of
               ArrowFunction t' (Identifier t'' returnExpr) # rest \<Rightarrow>
                 (\<lparr>i_name = returnExpr, i_path = resolveImportPath sf (Identifier t'' returnExpr),
                   i_isAsync = Some True, i_dependencies = Some [],
                   i_isForwardReference = Some True, i_module = None\<rparr>, st)
             | _ \<Rightarrow> createUnknownImport st)
          else
            (\<lparr>i_name = callee, i_path = resolveImportPath sf expression,
              i_isAsync = Some True, i_dependencies = Some [],
              i_isForwardReference = None, i_module = None\<rparr>, st)
      | PropertyAccessExpression t inner n \<Rightarrow>
          (\<lparr>i_name = getText inner, i_path = resolveImportPath sf inner,
            i_isAsync = Some True, i_dependencies = Some [],
            i_isForwardReference = None, i_module = None\<rparr>, st)
      | _ \<Rightarrow> createUnknownImport st)"

text \<open>The callback that \<^verbatim>\<open>extractImports\<close> maps over the elements of the array.\<close>

definition importElement :: "SourceFile \<Rightarrow> ParserState \<Rightarrow> Node \<Rightarrow> ImportMetadata \<times> ParserState" where
  "importElement sf st element =
     (case element of
        Identifier t s \<Rightarrow> (createImportMetadata sf t s, st)
      | CallExpression t expression arguments \<Rightarrow> parseAsyncImport sf st expression arguments
      | _ \<Rightarrow> createUnknownImport st)"

text \<open>\<^verbatim>\<open>Array.prototype.map\<close> with a callback that mutates the parser: left to right.\<close>

fun mapState :: "('s \<Rightarrow> 'a \<Rightarrow> 'b \<times> 's) \<Rightarrow> 's \<Rightarrow> 'a list \<Rightarrow> 'b list \<times> 's" where
  "mapState f st [] = ([], st)"
| "mapState f st (x # xs) =
     (let (y, st1) = f st x;
          (ys, st2) = mapState f st1 xs
      in (y # ys, st2))"

definition extractImports ::
  "SourceFile \<Rightarrow> ParserState \<Rightarrow> ObjectLiteralElement list \<Rightarrow> ImportMetadata list \<times> ParserState" where
  "extractImports sf st properties =
     (case arrayField properties ''imports'' of
        None \<Rightarrow> ([], st)
      | Some elements \<Rightarrow> mapState (importElement sf) st elements)"

definition extractExports :: "ObjectLiteralElement list \<Rightarrow> string list" where
  "extractExports properties =
     (case arrayField properties ''exports'' of
        None \<Rightarrow> []
      | Some elements \<Rightarrow> identifierTexts elements)"

definition extractControllers :: "ObjectLiteralElement list \<Rightarrow> string list" where
  "extractControllers properties =
     (case arrayField properties ''controllers'' of
        None \<Rightarrow> []
      | Some elements \<Rightarrow> identifierTexts elements)"

subsection \<open>Providers\<close>

definition createProviderMetadata :: "SourceFile \<Rightarrow> string \<Rightarrow> ProviderMetadata" where
  "createProviderMetadata sf identifier =
     (let classDecl = findClassDeclaration sf identifier
      in \<lparr>p_name = identifier, p_type = Class,
          p_dependencies = (case classDecl of
                              Some c \<Rightarrow> extractConstructorDependencies c
                            | None \<Rightarrow> []),
          p_isInjectable = (case classDecl of
                              Some c \<Rightarrow> hasDecorator c ''Injectable''
                            | None \<Rightarrow> False),
          p_provide = Some identifier, p_useClass = None, p_useValue = None,
          p_useFactory = None, p_inject = None\<rparr>)"

text \<open>
  \<^verbatim>\<open>parseProviderObjectLiteral\<close>. The three \<^verbatim>\<open>if\<close> tests are \<^verbatim>\<open>if (useClass)\<close>,
  \<^verbatim>\<open>else if (useFactory)\<close> and \<^verbatim>\<open>else if (useValue !== undefined)\<close>; the declared
  default is \<^verbatim>\<open>type = 'class'\<close>, \<^verbatim>\<open>dependencies = []\<close>.
\<close>

definition parseProviderObjectLiteral ::
  "SourceFile \<Rightarrow> ParserState \<Rightarrow> ObjectLiteralElement list \<Rightarrow> ProviderMetadata option \<times> ParserState" where
  "parseProviderObjectLiteral sf st properties =
     (let provide = getPropertyValue properties ''provide''
      in if \<not> truthy provide then (None, st)
         else
           let useClass = getPropertyValue properties ''useClass'';
               useValue = getPropertyValue properties ''useValue'';
               useFactory = getPropertyValue properties ''useFactory'';
               name = the provide;
               (type, dependencies) =
                 (if truthy useClass then
                    (Class, case findClassDeclaration sf (the useClass) of
                              Some classDecl \<Rightarrow> extractConstructorDependencies classDecl
                            | None \<Rightarrow> [])
                  else if truthy useFactory then
                    (Factory, case getArrayPropertyValue properties ''inject'' of
                                Some inject \<Rightarrow> inject
                              | None \<Rightarrow> [])
                  else if useValue \<noteq> None then (Value, [])
                  else (Class, []));
               metadata =
                 \<lparr>p_name = name, p_type = type, p_dependencies = dependencies,
                  p_isInjectable =
                    (type = Class \<and>
                     isClassInjectable sf (if truthy useClass then the useClass else name)),
                  p_provide = provide, p_useClass = useClass, p_useValue = useValue,
                  p_useFactory = useFactory, p_inject = Some dependencies\<rparr>
           in (Some metadata,
               st\<lparr>providerCache := AList.update name metadata (providerCache st)\<rparr>))"

definition parseProvider ::
  "SourceFile \<Rightarrow> ParserState \<Rightarrow> Node \<Rightarrow> ProviderMetadata option \<times> ParserState" where
  "parseProvider sf st element =
     (case element of
        Identifier t s \<Rightarrow>
          (let provider = createProviderMetadata sf s
           in (Some provider,
               st\<lparr>providerCache := AList.update (p_name provider) provider (providerCache st)\<rparr>))
      | ObjectLiteralExpression t properties \<Rightarrow> parseProviderObjectLiteral sf st properties
      | _ \<Rightarrow> (None, st))"

text \<open>\<^verbatim>\<open>.filter((provider) => !!provider)\<close>\<close>

definition dropNull :: "'a option list \<Rightarrow> 'a list" where
  "dropNull rs = concat (map (\<lambda>r. case r of Some x \<Rightarrow> [x] | None \<Rightarrow> []) rs)"

definition extractProviders ::
  "SourceFile \<Rightarrow> ParserState \<Rightarrow> ObjectLiteralElement list \<Rightarrow> ProviderMetadata list \<times> ParserState" where
  "extractProviders sf st properties =
     (case arrayField properties ''providers'' of
        None \<Rightarrow> ([], st)
      | Some elements \<Rightarrow>
          (let (results, st1) = mapState (parseProvider sf) st elements
           in (dropNull results, st1)))"

subsection \<open>Entity count\<close>

definition bindE :: "error + 'a \<Rightarrow> ('a \<Rightarrow> error + 'b) \<Rightarrow> error + 'b" where
  "bindE r f = (case r of Inl e \<Rightarrow> Inl e | Inr x \<Rightarrow> f x)"

text \<open>
  \<^verbatim>\<open>const [entityArray] = element.arguments;
  if (ts.isArrayLiteralExpression(entityArray)) entityCount += entityArray.elements.length\<close>:
  what the statement adds, or the \<^verbatim>\<open>TypeError\<close> of the guard when there is no argument.
\<close>

definition countArrayArgument :: "Node list \<Rightarrow> error + nat" where
  "countArrayArgument arguments =
     (case arguments of
        [] \<Rightarrow> Inl TypeError
      | entityArray # rest \<Rightarrow>
          (case entityArray of
             ArrayLiteralExpression t elements \<Rightarrow> Inr (length elements)
           | _ \<Rightarrow> Inr 0))"

text \<open>The same for \<^verbatim>\<open>const [config] = element.arguments\<close> and its \<^verbatim>\<open>entities\<close> field.\<close>

definition countEntitiesField :: "Node list \<Rightarrow> error + nat" where
  "countEntitiesField arguments =
     (case arguments of
        [] \<Rightarrow> Inl TypeError
      | config # rest \<Rightarrow>
          (case config of
             ObjectLiteralExpression t properties \<Rightarrow>
               (case arrayField properties ''entities'' of
                  Some elements \<Rightarrow> Inr (length elements)
                | None \<Rightarrow> Inr 0)
           | _ \<Rightarrow> Inr 0))"

text \<open>One \<^verbatim>\<open>if (test) { ... entityCount += ... }\<close> block of the loop body.\<close>

definition addWhen :: "bool \<Rightarrow> error + nat \<Rightarrow> nat \<Rightarrow> error + nat" where
  "addWhen test added entityCount =
     (if test then bindE added (\<lambda>k. Inr (entityCount + k)) else Inr entityCount)"

text \<open>The body of the \<^verbatim>\<open>for\<close> loop of \<^verbatim>\<open>extractEntityCount\<close>, for one element.\<close>

definition countElement :: "nat \<Rightarrow> Node \<Rightarrow> error + nat" where
  "countElement entityCount element =
     (case element of
        CallExpression t expression arguments \<Rightarrow>
          (case expression of
             PropertyAccessExpression fullExpression inner n \<Rightarrow>
               bindE (addWhen (fullExpression = ''TypeOrmModule.forFeature'')
                        (countArrayArgument arguments) entityCount)
                 (\<lambda>c1. bindE (addWhen (getText inner = ''TypeOrmModule'')
                                (countEntitiesField arguments) c1)
                 (\<lambda>c2. bindE (addWhen (fullExpression = ''MongooseModule.forFeature'')
                                (countArrayArgument arguments) c2)
                 (\<lambda>c3. addWhen (fullExpression = ''SequelizeModule.forFeature'')
                          (countArrayArgument arguments) c3)))
           | _ \<Rightarrow> Inr entityCount)
      | _ \<Rightarrow> Inr entityCount)"

fun countLoop :: "nat \<Rightarrow> Node list \<Rightarrow> error + nat" where
  "countLoop entityCount [] = Inr entityCount"
| "countLoop entityCount (element # elements) =
     bindE (countElement entityCount element) (\<lambda>c. countLoop c elements)"

definition extractEntityCount :: "ObjectLiteralElement list \<Rightarrow> error + nat" where
  "extractEntityCount properties =
     (case arrayField properties ''imports'' of
        None \<Rightarrow> Inr 0
      | Some elements \<Rightarrow> countLoop 0 elements)"

subsection \<open>The module decorator\<close>

definition createEmptyModuleMetadata :: "ParserState \<Rightarrow> ModuleMetadata \<times> ParserState" where
  "createEmptyModuleMetadata st =
     (let (n, st1) = generateUniqueName ''Module'' st
      in (\<lparr>m_name = n, m_filePath = None, m_imports = [], m_exports = [],
           m_providers = [], m_controllers = [], m_entityCount = 0\<rparr>, st1))"

text \<open>
  \<^verbatim>\<open>parseModuleDecorator\<close>. The fields of the returned object literal are evaluated in
  the order they are written, so the parser state runs through \<^verbatim>\<open>name\<close>, \<^verbatim>\<open>imports\<close>
  and \<^verbatim>\<open>providers\<close>; an exception of \<^verbatim>\<open>extractEntityCount\<close> leaves the function.
\<close>

definition parseModuleDecorator ::
  "SourceFile \<Rightarrow> ParserState \<Rightarrow> ClassDeclaration \<Rightarrow> error + ModuleMetadata \<times> ParserState" where
  "parseModuleDecorator sf st node =
     (case findDecorator node ''Module'' of
        None \<Rightarrow> Inr (createEmptyModuleMetadata st)
      | Some decorator \<Rightarrow>
          (case decorator of
             CallExpression t expression arguments \<Rightarrow>
               (case arguments of
                  ObjectLiteralExpression t' properties # rest \<Rightarrow>
                    (let (n, st1) = (case c_name node of
                                       Some text \<Rightarrow> (text, st)
                                     | None \<Rightarrow> generateUniqueName ''Module'' st);
                         (imports, st2) = extractImports sf st1 properties;
                         exports = extractExports properties;
                         (providers, st3) = extractProviders sf st2 properties;
                         controllers = extractControllers properties
                     in bindE (extractEntityCount properties)
                          (\<lambda>entityCount.
                             Inr (\<lparr>m_name = n, m_filePath = Some (fileName sf),
                                   m_imports = imports, m_exports = exports,
                                   m_providers = providers, m_controllers = controllers,
                                   m_entityCount = entityCount\<rparr>, st3)))
                | _ \<Rightarrow> Inr (createEmptyModuleMetadata st))
           | _ \<Rightarrow> Inr (createEmptyModuleMetadata st)))"

subsection \<open>Second-pass enrichment\<close>

definition getModuleDependencies :: "ParserState \<Rightarrow> string \<Rightarrow> string list" where
  "getModuleDependencies st moduleName =
     (case map_of (moduleCache st) moduleName of
        None \<Rightarrow> []
      | Some cachedModule \<Rightarrow>
          map i_name (m_imports cachedModule) @ map p_name (m_providers cachedModule))"

text \<open>
  \<^verbatim>\<open>getProviderDependencyTree(providerName, visited)\<close>. The \<^verbatim>\<open>Set\<close> \<^verbatim>\<open>visited\<close> is one
  object shared by all recursive calls, so the function returns it together with its
  result; \<open>nestedDeps\<close> is the \<^verbatim>\<open>flatMap\<close> over the direct dependencies, which hands the
  set from each call to the next.
\<close>

function getProviderDependencyTree ::
    "ProviderCache \<Rightarrow> string \<Rightarrow> string set \<Rightarrow> string list \<times> string set"
  and nestedDeps ::
    "ProviderCache \<Rightarrow> string list \<Rightarrow> string set \<Rightarrow> string list \<times> string set" where
  "getProviderDependencyTree cache providerName visited =
     (if providerName \<in> visited then ([], visited)
      else
        let visited1 = insert providerName visited in
        case map_of cache providerName of
          None \<Rightarrow> ([], visited1)
        | Some provider \<Rightarrow>
            let directDeps = p_dependencies provider;
                (nested, visited2) = nestedDeps cache directDeps visited1
            in (uniq (directDeps @ nested), visited2))"
| "nestedDeps cache [] visited = ([], visited)"
| "nestedDeps cache (dep # deps) visited =
     (let (r, visited1) = getProviderDependencyTree cache dep visited;
          (rs, visited2) = nestedDeps cache deps visited1
      in (r @ rs, visited2))"
  by pat_completeness auto

text \<open>The number of cached provider names not yet in \<^verbatim>\<open>visited\<close>.\<close>

definition unvisited :: "ProviderCache \<Rightarrow> string set \<Rightarrow> nat" where
  "unvisited cache visited = card (fst ` set cache - visited)"

text \<open>A call never removes a name from \<^verbatim>\<open>visited\<close>.\<close>

lemma visited_grows:
  "getProviderDependencyTree_nestedDeps_dom (Inl (cache, n, v)) \<Longrightarrow>
     v \<subseteq> snd (getProviderDependencyTree cache n v)"
  "getProviderDependencyTree_nestedDeps_dom (Inr (cache, ds, v)) \<Longrightarrow>
     v \<subseteq> snd (nestedDeps cache ds v)"
proof (induction cache n v and cache ds v rule: getProviderDependencyTree_nestedDeps.pinduct)
  case (1 cache providerName visited)
  note dom = "1.hyps" and IH = "1.IH"
  show ?case
  proof (cases "providerName \<in> visited")
    case True
    then show ?thesis by (simp add: getProviderDependencyTree.psimps [OF dom])
  next
    case False
    show ?thesis
    proof (cases "map_of cache providerName")
      case None
      with False show ?thesis
        by (auto simp: getProviderDependencyTree.psimps [OF dom])
    next
      case (Some provider)
      from IH [OF False refl Some refl]
      have "insert providerName visited \<subseteq>
            snd (nestedDeps cache (p_dependencies provider) (insert providerName visited))" .
      then have "visited \<subseteq>
            snd (nestedDeps cache (p_dependencies provider) (insert providerName visited))"
        by blast
      with False Some show ?thesis
        by (auto simp: getProviderDependencyTree.psimps [OF dom] Let_def split: prod.splits)
    qed
  qed
next
  case (2 cache visited)
  then show ?case by (simp add: nestedDeps.psimps)
next
  case (3 cache dep deps visited)
  note dom = "3.hyps" and IH = "3.IH"
  obtain r v1 where t: "getProviderDependencyTree cache dep visited = (r, v1)"
    by (cases "getProviderDependencyTree cache dep visited")
  from IH(1) t have a: "visited \<subseteq> v1" by simp
  from IH(2) [OF t [symmetric] refl] have b: "v1 \<subseteq> snd (nestedDeps cache deps v1)" .
  from a b t show ?case
    by (auto simp: nestedDeps.psimps(2) [OF dom] Let_def split: prod.splits)
qed

text \<open>
  Every call that passes the guard adds a cached name to \<^verbatim>\<open>visited\<close> before it recurses,
  so the number of cached names outside \<^verbatim>\<open>visited\<close> decreases along the recursion;
  within one \<^verbatim>\<open>flatMap\<close> the remaining list gets shorter.
\<close>

lemma dependencyTree_total: "All getProviderDependencyTree_nestedDeps_dom"
proof (relation "(\<lambda>x. case x of Inl (c, n, v) \<Rightarrow> unvisited c v | Inr (c, ds, v) \<Rightarrow> unvisited c v)
                 <*mlex*> measure (\<lambda>x. case x of Inl _ \<Rightarrow> 0 | Inr (c, ds, v) \<Rightarrow> Suc (length ds))",
       goal_cases)
  case 1
  then show ?case by (simp add: wf_mlex)
next
  case (2 cache providerName visited x x2 xa)
  have "providerName \<in> fst ` set cache" using 2 by (force dest: map_of_SomeD)
  with 2 have "fst ` set cache - insert providerName visited \<subset> fst ` set cache - visited"
    by auto
  then have "unvisited cache (insert providerName visited) < unvisited cache visited"
    unfolding unvisited_def by (intro psubset_card_mono) auto
  with 2 show ?case by (simp add: mlex_less)
next
  case (3 cache dep deps visited)
  then show ?case by (simp add: mlex_leq)
next
  case (4 cache dep deps visited x xa y)
  from 4 have "visited \<subseteq> snd (getProviderDependencyTree cache dep visited)"
    by (intro visited_grows(1))
  moreover from 4 have "snd (getProviderDependencyTree cache dep visited) = y"
    by (metis snd_conv)
  ultimately have "visited \<subseteq> y" by simp
  then have "unvisited cache y \<le> unvisited cache visited"
    unfolding unvisited_def by (intro card_mono) auto
  then show ?case by (simp add: mlex_leq)
qed

termination getProviderDependencyTree
  by (rule dependencyTree_total)

declare getProviderDependencyTree.simps [simp del]

definition enrichWithSecondLevelDependencies :: "ParserState \<Rightarrow> ModuleMetadata \<Rightarrow> ModuleMetadata" where
  "enrichWithSecondLevelDependencies st m =
     (let imports = map (\<lambda>importMeta.
                           importMeta\<lparr>i_dependencies :=
                             Some (getModuleDependencies st (i_name importMeta))\<rparr>)
                        (m_imports m);
          providers = map (\<lambda>provider.
                             provider\<lparr>p_dependencies :=
                               fst (getProviderDependencyTree (providerCache st)
                                      (p_name provider) {})\<rparr>)
                          (m_providers m)
      in m\<lparr>m_imports := imports, m_providers := providers\<rparr>)"

text \<open>
  \<^verbatim>\<open>parseModule\<close>. The module cache holds the very object that the enrichment then
  mutates, so the cache entry is the enriched record once the function returns.
\<close>

definition parseModule :: "SourceFile \<Rightarrow> ParserState \<Rightarrow> error + ModuleMetadata option \<times> ParserState" where
  "parseModule sf st =
     (case findModuleClass sf of
        None \<Rightarrow> Inr (None, st)
      | Some moduleClass \<Rightarrow>
          bindE (parseModuleDecorator sf st moduleClass)
            (\<lambda>(metadata, st1).
               if m_name metadata = [] then Inr (None, st1)
               else
                 let st2 = st1\<lparr>moduleCache :=
                             AList.update (m_name metadata) metadata (moduleCache st1)\<rparr>;
                     enriched = enrichWithSecondLevelDependencies st2 metadata
                 in Inr (Some enriched,
                         st2\<lparr>moduleCache :=
                               AList.update (m_name metadata) enriched (moduleCache st2)\<rparr>)))"

text \<open>
  \<^verbatim>\<open>DependencyAnalyzer.parseModule\<close> registers what a fresh parser returned for a file:
  \<^verbatim>\<open>this.modules.set(moduleMetadata.name, { ...moduleMetadata, filePath })\<close>.
\<close>

definition registerModule :: "Graph \<Rightarrow> string \<Rightarrow> ModuleMetadata option \<Rightarrow> Graph" where
  "registerModule g filePath parsed =
     (case parsed of
        None \<Rightarrow> g
      | Some moduleMetadata \<Rightarrow>
          if m_name moduleMetadata = [] then g
          else AList.update (m_name moduleMetadata)
                 (moduleMetadata\<lparr>m_filePath := Some filePath\<rparr>) g)"

text \<open>
  The mappings that \<^verbatim>\<open>DependencyAnalyzer.scanDirectory\<close> builds: it starts from the empty
  \<^verbatim>\<open>Map\<close> and, for every module file, registers what a fresh parser
  (\<^verbatim>\<open>new AstParser(content, filePath)\<close>) returns for it. A file whose extraction raises
  ends the analysis and registers nothing.
\<close>

inductive analysed :: "Graph \<Rightarrow> bool" where
  analysed_empty: "analysed []"
| analysed_file:
    "analysed g \<Longrightarrow> parseModule sf initialState = Inr (parsed, st') \<Longrightarrow>
     analysed (registerModule g (fileName sf) parsed)"

section \<open>Notions of the specification\<close>

text \<open>
  The decorator's call-argument object literal (section 4.1, step 2): the properties of
  the first argument of the module decorator's call, when the class has such a
  decorator, in call form, whose first argument is an object literal.
\<close>

definition moduleArgument :: "ClassDeclaration \<Rightarrow> ObjectLiteralElement list option" where
  "moduleArgument node =
     (case findDecorator node ''Module'' of
        Some (CallExpression t expression (ObjectLiteralExpression t' properties # rest)) \<Rightarrow>
          Some properties
      | _ \<Rightarrow> None)"

text \<open>The empty module record with the placeholder name minted from the counter \<open>k\<close>.\<close>

definition emptyModule :: "nat \<Rightarrow> ModuleMetadata" where
  "emptyModule k =
     \<lparr>m_name = ''Module_'' @ showNat k, m_filePath = None, m_imports = [], m_exports = [],
      m_providers = [], m_controllers = [], m_entityCount = 0\<rparr>"

text \<open>
  The entity-registration forms that take an array literal (section 4.1, step 7):
  a call whose callee text is one of the three \<^verbatim>\<open>forFeature\<close> forms and whose first
  argument is an array literal of \<open>k\<close> elements.
\<close>

definition forFeatureForms :: "string list" where
  "forFeatureForms =
     [''TypeOrmModule.forFeature'', ''MongooseModule.forFeature'', ''SequelizeModule.forFeature'']"

definition registersEntities :: "nat \<Rightarrow> Node \<Rightarrow> bool" where
  "registersEntities k element =
     (case element of
        CallExpression t (PropertyAccessExpression fullExpression inner n)
                       (ArrayLiteralExpression t' elements # rest) \<Rightarrow>
          fullExpression \<in> set forFeatureForms \<and> length elements = k
      | _ \<Rightarrow> False)"

text \<open>
  The recognized call shapes of section 4.1, step 7, by the exact text of the callee:
  the three \<^verbatim>\<open>forFeature\<close> forms and the root registration \<^verbatim>\<open>TypeOrmModule.forRoot\<close>,
  the four forms that the comments of \<^verbatim>\<open>extractEntityCount\<close> name. A call expression
  matches none of the recognized forms when the text of its callee is none of the four.
\<close>

definition recognizedForms :: "string list" where
  "recognizedForms = forFeatureForms @ [''TypeOrmModule.forRoot'']"

definition matchesNoRecognizedForm :: "Node \<Rightarrow> bool" where
  "matchesNoRecognizedForm element =
     (case element of
        CallExpression t expression arguments \<Rightarrow> getText expression \<notin> set recognizedForms
      | _ \<Rightarrow> False)"

text \<open>
  A call expression for which \<^verbatim>\<open>parseAsyncImport\<close> finds a module name: its callee is a
  property access, or an identifier other than \<^verbatim>\<open>forwardRef\<close>, or it is a call of
  \<^verbatim>\<open>forwardRef\<close> whose first argument is an arrow function with an identifier as body.
\<close>

definition isCallExpression :: "Node \<Rightarrow> bool" where
  "isCallExpression element = (case element of CallExpression t f args \<Rightarrow> True | _ \<Rightarrow> False)"

definition namedCall :: "Node \<Rightarrow> bool" where
  "namedCall element =
     (case element of
        CallExpression t expression arguments \<Rightarrow>
          (case expression of
             Identifier t' callee \<Rightarrow>
               (if callee = ''forwardRef''
                then (case arguments of
                        ArrowFunction t'' (Identifier t''' returnExpr) # rest \<Rightarrow> True
                      | _ \<Rightarrow> False)
                else True)
           | PropertyAccessExpression t' inner n \<Rightarrow> True
           | _ \<Rightarrow> False)
      | _ \<Rightarrow> False)"

text \<open>
  Presence of a field in a provider's object literal, and the text of a binding field
  whose initializer is an identifier or a string literal with a non-empty text (what
  \<^verbatim>\<open>getPropertyValue\<close> returns and the \<^verbatim>\<open>if\<close> tests accept).
\<close>

definition hasField :: "ObjectLiteralElement list \<Rightarrow> string \<Rightarrow> bool" where
  "hasField properties n = (findPropertyAssignment properties n \<noteq> None)"

definition namedBinding :: "ObjectLiteralElement list \<Rightarrow> string \<Rightarrow> string option" where
  "namedBinding properties n =
     (case getPropertyValue properties n of
        Some s \<Rightarrow> if s = [] then None else Some s
      | None \<Rightarrow> None)"

definition constructorDependenciesOf :: "SourceFile \<Rightarrow> string \<Rightarrow> string list" where
  "constructorDependenciesOf sf className =
     (case findClassDeclaration sf className of
        Some classDecl \<Rightarrow> extractConstructorDependencies classDecl
      | None \<Rightarrow> [])"

definition injectList :: "ObjectLiteralElement list \<Rightarrow> string list" where
  "injectList properties =
     (case getArrayPropertyValue properties ''inject'' of Some inject \<Rightarrow> inject | None \<Rightarrow> [])"

section \<open>Diagram rendering (DotVisualizer)\<close>

definition dquote :: string where
  "dquote = [CHR 0x22]"

definition backslash :: string where
  "backslash = [CHR 0x5C]"

text \<open>\<^verbatim>\<open>name.replace(/"/g, '\\"')\<close>\<close>

definition escapeName :: "string \<Rightarrow> string" where
  "escapeName n = concat (map (\<lambda>c. if c = CHR 0x22 then backslash @ dquote else [c]) n)"

text \<open>\<^verbatim>\<open>label.replace(/"/g, '\\"').replace(/\n/g, '\\n')\<close>\<close>

definition escapeLabel :: "string \<Rightarrow> string" where
  "escapeLabel label =
     concat (map (\<lambda>c. if c = CHR 0x0A then backslash @ ''n'' else [c]) (escapeName label))"

definition nodeLine :: "string \<times> ModuleMetadata \<Rightarrow> string" where
  "nodeLine e =
     (let moduleName = fst e; m = snd e;
          label = escapeLabel
            (moduleName @ backslash @ ''n'' @
             ''Controllers: '' @ showNat (length (m_controllers m)) @ backslash @ ''n'' @
             ''Providers: '' @ showNat (length (m_providers m)) @ backslash @ ''n'' @
             ''Imports: '' @ showNat (length (m_imports m)) @ backslash @ ''n'' @
             ''Entities: '' @ showNat (m_entityCount m))
      in ''  '' @ dquote @ escapeName moduleName @ dquote @ '' [label='' @ dquote @ label @
         dquote @ ''];'')"

definition forwardRefStyle :: string where
  "forwardRefStyle = ''[label='' @ dquote @ ''imports (forward ref)'' @ dquote @
                     '', style=dashed, color=red]''"

definition plainStyle :: string where
  "plainStyle = ''[label='' @ dquote @ ''imports'' @ dquote @ '']''"

definition edgeStyle :: "ImportMetadata \<Rightarrow> string" where
  "edgeStyle imp = (if i_isForwardReference imp = Some True then forwardRefStyle else plainStyle)"

definition importEdge :: "string \<Rightarrow> ImportMetadata \<Rightarrow> string" where
  "importEdge moduleName imp =
     ''  '' @ dquote @ escapeName moduleName @ dquote @ '' -> '' @ dquote @
     escapeName (i_name imp) @ dquote @ '' '' @ edgeStyle imp @ '';''"

definition providerEdge :: "ProviderMetadata \<Rightarrow> string \<Rightarrow> string" where
  "providerEdge provider dep =
     ''  '' @ dquote @ escapeName (p_name provider) @ dquote @ '' -> '' @ dquote @
     escapeName dep @ dquote @ '' [color=blue, style=dashed];''"

text \<open>The array \<^verbatim>\<open>lines\<close> of \<^verbatim>\<open>generate\<close>, and its \<^verbatim>\<open>join('\n')\<close>.\<close>

definition generateLines :: "Graph \<Rightarrow> string list" where
  "generateLines g =
     [''digraph {'', ''  rankdir=LR;'',
      ''  node [shape=box, style=filled, fillcolor=lightgray];'', ''''] @
     map nodeLine g @
     [''''] @
     concat (map (\<lambda>e. map (importEdge (fst e)) (m_imports (snd e))) g) @
     concat (map (\<lambda>e. concat (map (\<lambda>provider. map (providerEdge provider)
                                                   (p_dependencies provider))
                                  (m_providers (snd e)))) g) @
     [''}'']"

fun joinLines :: "string list \<Rightarrow> string" where
  "joinLines [] = []"
| "joinLines [l] = l"
| "joinLines (l # ls) = l @ [CHR 0x0A] @ joinLines ls"

definition generate :: "Graph \<Rightarrow> string" where
  "generate g = joinLines (generateLines g)"

text \<open>
  An inline function returning the bare identifier \<open>c\<close>: an arrow function whose concise
  body is the identifier (\<^verbatim>\<open>() => c\<close>), or an arrow function or a function expression whose
  block is the statement \<^verbatim>\<open>return c;\<close> (\<^verbatim>\<open>() => { return c; }\<close>,
  \<^verbatim>\<open>function () { return c; }\<close>). \<open>forwardReferenceTo c\<close> holds of a call of the
  forward-reference wrapper whose single argument is such a function.
\<close>

definition identifierNamed :: "Node \<Rightarrow> string \<Rightarrow> bool" where
  "identifierNamed node c = (case node of Identifier t s \<Rightarrow> s = c | _ \<Rightarrow> False)"

definition returnsOnly :: "Node \<Rightarrow> string \<Rightarrow> bool" where
  "returnsOnly body c =
     (case body of
        Block t [ReturnStatement t' (Some expression)] \<Rightarrow> identifierNamed expression c
      | _ \<Rightarrow> False)"

definition returnsIdentifier :: "Node \<Rightarrow> string \<Rightarrow> bool" where
  "returnsIdentifier fn c =
     (case fn of
        ArrowFunction t body \<Rightarrow> identifierNamed body c \<or> returnsOnly body c
      | FunctionExpression t body \<Rightarrow> returnsOnly body c
      | _ \<Rightarrow> False)"

definition forwardReferenceTo :: "string \<Rightarrow> Node \<Rightarrow> bool" where
  "forwardReferenceTo c element =
     (case element of
        CallExpression t callee [fn] \<Rightarrow>
          identifierNamed callee ''forwardRef'' \<and> returnsIdentifier fn c
      | _ \<Rightarrow> False)"

text \<open>
  \<^verbatim>\<open>forwardRef(() => c)\<close>: a call of the forward-reference wrapper whose first argument
  is an arrow function with the identifier \<open>c\<close> as its concise body.
\<close>

definition arrowForwardReference :: "string \<Rightarrow> Node \<Rightarrow> bool" where
  "arrowForwardReference c element =
     (case element of
        CallExpression t callee (ArrowFunction t' body # rest) \<Rightarrow>
          identifierNamed callee ''forwardRef'' \<and> identifierNamed body c
      | _ \<Rightarrow> False)"

text \<open>
  The edge statement from the module \<open>k\<close> to the module \<open>c\<close> in the dashed, coloured
  style, \<^verbatim>\<open>  "k" -> "c" [label="imports (forward ref)", style=dashed, color=red];\<close>, and in
  the plain style, \<^verbatim>\<open>  "k" -> "c" [label="imports"];\<close>.
\<close>

definition dashedEdge :: "string \<Rightarrow> string \<Rightarrow> string" where
  "dashedEdge k c =
     ''  '' @ dquote @ escapeName k @ dquote @ '' -> '' @ dquote @ escapeName c @ dquote @
     '' [label='' @ dquote @ ''imports (forward ref)'' @ dquote @ '', style=dashed, color=red];''"

definition plainEdge :: "string \<Rightarrow> string \<Rightarrow> string" where
  "plainEdge k c =
     ''  '' @ dquote @ escapeName k @ dquote @ '' -> '' @ dquote @ escapeName c @ dquote @
     '' [label='' @ dquote @ ''imports'' @ dquote @ ''];''"

section \<open>Concrete inputs\<close>

text \<open>
  A mapping of two modules: \<^verbatim>\<open>AModule\<close> imports \<^verbatim>\<open>BModule\<close> and a module that no
  analysed file declares; its provider depends on a provider of \<^verbatim>\<open>BModule\<close>.
\<close>

definition mkProvider :: "string \<Rightarrow> string option \<Rightarrow> string list \<Rightarrow> ProviderMetadata" where
  "mkProvider n tok deps =
     \<lparr>p_name = n, p_type = Class, p_dependencies = deps, p_isInjectable = True,
      p_provide = tok, p_useClass = None, p_useValue = None, p_useFactory = None,
      p_inject = None\<rparr>"

definition mkImport :: "string \<Rightarrow> string option \<Rightarrow> ImportMetadata" where
  "mkImport n p =
     \<lparr>i_name = n, i_path = p, i_isAsync = Some False, i_dependencies = Some [],
      i_isForwardReference = None, i_module = None\<rparr>"

definition exampleGraph :: Graph where
  "exampleGraph =
     [(''AModule'',
       \<lparr>m_name = ''AModule'', m_filePath = Some ''src/a.module.ts'',
        m_imports = [mkImport ''BModule'' (Some ''./b.module''), mkImport ''ConfigModule'' (Some ''config'')],
        m_exports = [],
        m_providers = [mkProvider ''AService'' (Some ''AService'') [''BService'', ''Logger'']],
        m_controllers = [''AController''], m_entityCount = 0\<rparr>),
      (''BModule'',
       \<lparr>m_name = ''BModule'', m_filePath = Some ''src/b.module.ts'',
        m_imports = [], m_exports = [''BService''],
        m_providers = [mkProvider ''BService'' (Some ''BService'') []],
        m_controllers = [], m_entityCount = 0\<rparr>)]"

text \<open>
  Provider caches. In \<open>cyclicCache\<close> the providers \<^verbatim>\<open>A\<close> and \<^verbatim>\<open>B\<close> depend on each other;
  in \<open>diamondCache\<close> the provider \<^verbatim>\<open>D\<close> is reached from \<^verbatim>\<open>A\<close> along two paths.
\<close>

definition cyclicCache :: ProviderCache where
  "cyclicCache =
     [(''A'', mkProvider ''A'' (Some ''A'') [''B'', ''C'']),
      (''B'', mkProvider ''B'' (Some ''B'') [''A'', ''C''])]"

definition diamondCache :: ProviderCache where
  "diamondCache =
     [(''A'', mkProvider ''A'' (Some ''A'') [''B'', ''C'']),
      (''B'', mkProvider ''B'' (Some ''B'') [''D'']),
      (''C'', mkProvider ''C'' (Some ''C'') [''D'']),
      (''D'', mkProvider ''D'' (Some ''D'') [])]"

definition diamondModule :: ModuleMetadata where
  "diamondModule =
     \<lparr>m_name = ''DiamondModule'', m_filePath = Some ''src/diamond.module.ts'', m_imports = [],
      m_exports = [],
      m_providers = [mkProvider ''A'' (Some ''A'') [''B'', ''C''],
                     mkProvider ''D'' (Some ''D'') []],
      m_controllers = [], m_entityCount = 0\<rparr>"

text \<open>
  Source files. \<open>bareModuleFile\<close> declares \<^verbatim>\<open>@Module() export class BareModule {}\<close>: the
  decorator is called without an argument.
\<close>

definition moduleDecorator :: "Node list \<Rightarrow> Node" where
  "moduleDecorator args = CallExpression ''Module(...)'' (Identifier ''Module'' ''Module'') args"

definition bareModuleClass :: ClassDeclaration where
  "bareModuleClass =
     \<lparr>c_name = Some ''BareModule'', c_decorators = [moduleDecorator []], c_members = []\<rparr>"

definition bareModuleFile :: SourceFile where
  "bareModuleFile =
     \<lparr>fileName = ''src/bare.module.ts'',
      statements = [OtherStatement, ClassDeclarationStatement bareModuleClass]\<rparr>"

text \<open>
  Elements of an \<^verbatim>\<open>imports\<close> array: \<^verbatim>\<open>TypeOrmModule.forFeature([User, Role, Team])\<close>,
  \<^verbatim>\<open>CacheModule.register()\<close>, \<^verbatim>\<open>TypeOrmModule.forFeature()\<close>,
  \<^verbatim>\<open>TypeOrmModule.forRootAsync({ entities: [User, Role] })\<close>,
  \<^verbatim>\<open>forwardRef(() => UsersModule)\<close>, \<^verbatim>\<open>forwardRef(UsersModule)\<close>,
  \<^verbatim>\<open>forwardRef(() => { return UsersModule; })\<close> and
  \<^verbatim>\<open>forwardRef(function () { return UsersModule; })\<close>.
\<close>

definition forFeatureCall :: Node where
  "forFeatureCall =
     CallExpression ''TypeOrmModule.forFeature([User, Role, Team])''
       (PropertyAccessExpression ''TypeOrmModule.forFeature'' (Identifier ''TypeOrmModule'' ''TypeOrmModule'') ''forFeature'')
       [ArrayLiteralExpression ''[User, Role, Team]''
          [Identifier ''User'' ''User'', Identifier ''Role'' ''Role'', Identifier ''Team'' ''Team'']]"

definition registerCall :: Node where
  "registerCall =
     CallExpression ''CacheModule.register()''
       (PropertyAccessExpression ''CacheModule.register'' (Identifier ''CacheModule'' ''CacheModule'') ''register'')
       []"

definition emptyForFeatureCall :: Node where
  "emptyForFeatureCall =
     CallExpression ''TypeOrmModule.forFeature()''
       (PropertyAccessExpression ''TypeOrmModule.forFeature'' (Identifier ''TypeOrmModule'' ''TypeOrmModule'') ''forFeature'')
       []"

definition forwardRefCall :: Node where
  "forwardRefCall =
     CallExpression ''forwardRef(() => UsersModule)'' (Identifier ''forwardRef'' ''forwardRef'')
       [ArrowFunction ''() => UsersModule'' (Identifier ''UsersModule'' ''UsersModule'')]"

definition bareForwardRefCall :: Node where
  "bareForwardRefCall =
     CallExpression ''forwardRef(UsersModule)'' (Identifier ''forwardRef'' ''forwardRef'')
       [Identifier ''UsersModule'' ''UsersModule'']"

definition returnBlock :: Node where
  "returnBlock =
     Block ''{ return UsersModule; }''
       [ReturnStatement ''return UsersModule;'' (Some (Identifier ''UsersModule'' ''UsersModule''))]"

definition blockForwardRefCall :: Node where
  "blockForwardRefCall =
     CallExpression ''forwardRef(() => { return UsersModule; })''
       (Identifier ''forwardRef'' ''forwardRef'')
       [ArrowFunction ''() => { return UsersModule; }'' returnBlock]"

definition functionForwardRefCall :: Node where
  "functionForwardRefCall =
     CallExpression ''forwardRef(function () { return UsersModule; })''
       (Identifier ''forwardRef'' ''forwardRef'')
       [FunctionExpression ''function () { return UsersModule; }'' returnBlock]"

definition stringLiteral :: "string \<Rightarrow> Node" where
  "stringLiteral s = StringLiteral ([CHR 0x27] @ s @ [CHR 0x27]) s"

definition field :: "string \<Rightarrow> Node \<Rightarrow> ObjectLiteralElement" where
  "field n init = PropertyAssignment (IdentifierName n) init"

definition forRootAsyncCall :: Node where
  "forRootAsyncCall =
     CallExpression ''TypeOrmModule.forRootAsync({ entities: [User, Role] })''
       (PropertyAccessExpression ''TypeOrmModule.forRootAsync''
          (Identifier ''TypeOrmModule'' ''TypeOrmModule'') ''forRootAsync'')
       [ObjectLiteralExpression ''{ entities: [User, Role] }''
          [field ''entities''
             (ArrayLiteralExpression ''[User, Role]''
                [Identifier ''User'' ''User'', Identifier ''Role'' ''Role''])]]"

definition importsField :: "Node list \<Rightarrow> ObjectLiteralElement" where
  "importsField elements =
     PropertyAssignment (IdentifierName ''imports'') (ArrayLiteralExpression ''[...]'' elements)"

text \<open>
  A class \<^verbatim>\<open>@Module({ ... }) export class name {}\<close> with the given properties of the
  decorator's object literal, and a file holding just that class.
\<close>

definition moduleClass :: "string \<Rightarrow> ObjectLiteralElement list \<Rightarrow> ClassDeclaration" where
  "moduleClass n properties =
     \<lparr>c_name = Some n,
      c_decorators = [moduleDecorator [ObjectLiteralExpression ''{ ... }'' properties]],
      c_members = []\<rparr>"

definition moduleFile :: "string \<Rightarrow> string \<Rightarrow> ObjectLiteralElement list \<Rightarrow> SourceFile" where
  "moduleFile path n properties =
     \<lparr>fileName = path, statements = [ClassDeclarationStatement (moduleClass n properties)]\<rparr>"

text \<open>
  \<open>dbModuleFile\<close> declares
  \<^verbatim>\<open>@Module({ imports: [ConfigModule, TypeOrmModule.forRootAsync({ entities: [User, Role] })] })
  export class DbModule {}\<close>, and \<open>plainModuleFile\<close> the same module without the call.
\<close>

definition dbModuleFile :: SourceFile where
  "dbModuleFile =
     moduleFile ''src/db.module.ts'' ''DbModule''
       [importsField [Identifier ''ConfigModule'' ''ConfigModule'', forRootAsyncCall]]"

definition plainModuleFile :: SourceFile where
  "plainModuleFile =
     moduleFile ''src/db.module.ts'' ''DbModule''
       [importsField [Identifier ''ConfigModule'' ''ConfigModule'']]"

text \<open>
  \<open>appModuleFile\<close> declares
  \<^verbatim>\<open>@Module({ imports: [ConfigModule, TypeOrmModule.forFeature()] }) export class AppModule {}\<close>.
\<close>

definition appModuleClass :: ClassDeclaration where
  "appModuleClass =
     \<lparr>c_name = Some ''AppModule'',
      c_decorators = [moduleDecorator [ObjectLiteralExpression ''{ imports: [...] }''
                                         [importsField [Identifier ''ConfigModule'' ''ConfigModule'', emptyForFeatureCall]]]],
      c_members = []\<rparr>"

definition appModuleFile :: SourceFile where
  "appModuleFile =
     \<lparr>fileName = ''src/app.module.ts'',
      statements = [ClassDeclarationStatement appModuleClass]\<rparr>"

text \<open>
  Provider declarations.
  \<open>inlineFactoryProvider\<close> is
  \<^verbatim>\<open>{ provide: 'TOKEN', useFactory: (db) => new Repo(db), inject: [Database] }\<close>;
  \<open>namedFactoryProvider\<close> is
  \<^verbatim>\<open>{ provide: 'TOKEN', useFactory: makeRepo, inject: [Database] }\<close>;
  \<open>classProvider\<close> is \<^verbatim>\<open>{ provide: 'REPO', useClass: Repo, useFactory: makeRepo, useValue: x }\<close>;
  \<open>valueProvider\<close> is \<^verbatim>\<open>{ provide: 'LIMIT', useValue: defaultLimit }\<close>;
  \<open>literalValueProvider\<close> is \<^verbatim>\<open>{ provide: 'LIMIT', useValue: 42 }\<close>;
  \<open>unnamedProvider\<close> is \<^verbatim>\<open>{ useClass: Repo }\<close>.
  \<open>repoFile\<close> declares
  \<^verbatim>\<open>@Injectable() class Repo { constructor(db: Database, n: number, log: Logger) {} }\<close>.
\<close>

definition inlineFactoryProvider :: "ObjectLiteralElement list" where
  "inlineFactoryProvider =
     [field ''provide'' (stringLiteral ''TOKEN''),
      field ''useFactory'' (ArrowFunction ''(db) => new Repo(db)'' (OtherNode ''new Repo(db)'')),
      field ''inject'' (ArrayLiteralExpression ''[Database]'' [Identifier ''Database'' ''Database''])]"

definition namedFactoryProvider :: "ObjectLiteralElement list" where
  "namedFactoryProvider =
     [field ''provide'' (stringLiteral ''TOKEN''),
      field ''useFactory'' (Identifier ''makeRepo'' ''makeRepo''),
      field ''inject'' (ArrayLiteralExpression ''[Database]'' [Identifier ''Database'' ''Database''])]"

definition classProvider :: "ObjectLiteralElement list" where
  "classProvider =
     [field ''provide'' (stringLiteral ''REPO''),
      field ''useClass'' (Identifier ''Repo'' ''Repo''),
      field ''useFactory'' (Identifier ''makeRepo'' ''makeRepo''),
      field ''useValue'' (Identifier ''x'' ''x'')]"

definition valueProvider :: "ObjectLiteralElement list" where
  "valueProvider =
     [field ''provide'' (stringLiteral ''LIMIT''),
      field ''useValue'' (Identifier ''defaultLimit'' ''defaultLimit'')]"

definition literalValueProvider :: "ObjectLiteralElement list" where
  "literalValueProvider =
     [field ''provide'' (stringLiteral ''LIMIT''),
      field ''useValue'' (OtherNode ''42'')]"

definition unnamedProvider :: "ObjectLiteralElement list" where
  "unnamedProvider = [field ''useClass'' (Identifier ''Repo'' ''Repo'')]"

definition repoFile :: SourceFile where
  "repoFile =
     \<lparr>fileName = ''src/repo.module.ts'',
      statements =
        [ClassDeclarationStatement
           \<lparr>c_name = Some ''Repo'',
            c_decorators = [CallExpression ''Injectable()'' (Identifier ''Injectable'' ''Injectable'') []],
            c_members = [ConstructorDeclaration
                           [Some (TypeReferenceNode ''Database''), Some OtherTypeNode,
                            Some (TypeReferenceNode ''Logger'')]]\<rparr>]\<rparr>"

text \<open>
  A project of two module files.
  \<open>usersModuleFile\<close> is
  \<^verbatim>\<open>import { AuthModule } from './auth.module';
  @Injectable() export class UsersService { constructor(db: Database) {} }
  @Module({ imports: [forwardRef(() => AuthModule)], providers: [UsersService],
  exports: [UsersService] }) export class UsersModule {}\<close>
  and \<open>authModuleFile\<close> is
  \<^verbatim>\<open>import { UsersModule } from './users.module';
  @Module({ imports: [UsersModule], providers: [{ provide: 'TOKEN', useFactory: makeToken,
  inject: [UsersService] }] }) export class AuthModule {}\<close>.
  \<open>lazyAuthModuleFile\<close> is the second file with the import written as
  \<^verbatim>\<open>forwardRef(() => { return UsersModule; })\<close> and without providers.
\<close>

definition forwardRefAuthCall :: Node where
  "forwardRefAuthCall =
     CallExpression ''forwardRef(() => AuthModule)'' (Identifier ''forwardRef'' ''forwardRef'')
       [ArrowFunction ''() => AuthModule'' (Identifier ''AuthModule'' ''AuthModule'')]"

definition namedImport :: "string \<Rightarrow> string \<Rightarrow> Statement" where
  "namedImport n path =
     ImportDeclarationStatement
       \<lparr>id_importClause = Some \<lparr>ic_name = None, ic_namedBindings = Some (NamedImports [n])\<rparr>,
        id_moduleSpecifier = stringLiteral path\<rparr>"

definition usersModuleFile :: SourceFile where
  "usersModuleFile =
     \<lparr>fileName = ''src/users.module.ts'',
      statements =
        [namedImport ''AuthModule'' ''./auth.module'',
         ClassDeclarationStatement
           \<lparr>c_name = Some ''UsersService'',
            c_decorators = [CallExpression ''Injectable()'' (Identifier ''Injectable'' ''Injectable'') []],
            c_members = [ConstructorDeclaration [Some (TypeReferenceNode ''Database'')]]\<rparr>,
         ClassDeclarationStatement
           (moduleClass ''UsersModule''
              [importsField [forwardRefAuthCall],
               field ''providers''
                 (ArrayLiteralExpression ''[UsersService]'' [Identifier ''UsersService'' ''UsersService'']),
               field ''exports''
                 (ArrayLiteralExpression ''[UsersService]'' [Identifier ''UsersService'' ''UsersService''])])]\<rparr>"

definition authModuleFile :: SourceFile where
  "authModuleFile =
     \<lparr>fileName = ''src/auth.module.ts'',
      statements =
        [namedImport ''UsersModule'' ''./users.module'',
         ClassDeclarationStatement
           (moduleClass ''AuthModule''
              [importsField [Identifier ''UsersModule'' ''UsersModule''],
               field ''providers''
                 (ArrayLiteralExpression ''[{ ... }]''
                    [ObjectLiteralExpression ''{ ... }''
                       [field ''provide'' (stringLiteral ''TOKEN''),
                        field ''useFactory'' (Identifier ''makeToken'' ''makeToken''),
                        field ''inject''
                          (ArrayLiteralExpression ''[UsersService]''
                             [Identifier ''UsersService'' ''UsersService''])]])])]\<rparr>"

definition lazyAuthModuleFile :: SourceFile where
  "lazyAuthModuleFile =
     \<lparr>fileName = ''src/auth.module.ts'',
      statements =
        [namedImport ''UsersModule'' ''./users.module'',
         ClassDeclarationStatement
           (moduleClass ''AuthModule'' [importsField [blockForwardRefCall]])]\<rparr>"

text \<open>
  What the extractor returns for the three files, and the mapping that the analyzer
  builds from the first two (lemmas \<open>parseModule_usersModuleFile\<close>,
  \<open>parseModule_authModuleFile\<close>, \<open>parseModule_lazyAuthModuleFile\<close> and
  \<open>projectGraph_analysed\<close> below).
\<close>

definition usersModule :: ModuleMetadata where
  "usersModule =
     \<lparr>m_name = ''UsersModule'', m_filePath = Some ''src/users.module.ts'',
      m_imports =
        [\<lparr>i_name = ''AuthModule'', i_path = Some ''./auth.module'', i_isAsync = Some True,
          i_dependencies = Some [], i_isForwardReference = Some True, i_module = None\<rparr>],
      m_exports = [''UsersService''],
      m_providers =
        [\<lparr>p_name = ''UsersService'', p_type = Class, p_dependencies = [''Database''],
          p_isInjectable = True, p_provide = Some ''UsersService'', p_useClass = None,
          p_useValue = None, p_useFactory = None, p_inject = None\<rparr>],
      m_controllers = [], m_entityCount = 0\<rparr>"

definition authModule :: ModuleMetadata where
  "authModule =
     \<lparr>m_name = ''AuthModule'', m_filePath = Some ''src/auth.module.ts'',
      m_imports =
        [\<lparr>i_name = ''UsersModule'', i_path = Some ''./users.module'', i_isAsync = Some False,
          i_dependencies = Some [], i_isForwardReference = None, i_module = None\<rparr>],
      m_exports = [],
      m_providers =
        [\<lparr>p_name = ''TOKEN'', p_type = Factory, p_dependencies = [''UsersService''],
          p_isInjectable = False, p_provide = Some ''TOKEN'', p_useClass = None,
          p_useValue = None, p_useFactory = Some ''makeToken'',
          p_inject = Some [''UsersService'']\<rparr>],
      m_controllers = [], m_entityCount = 0\<rparr>"

definition projectGraph :: Graph where
  "projectGraph = [(''UsersModule'', usersModule), (''AuthModule'', authModule)]"

definition lazyAuthModule :: ModuleMetadata where
  "lazyAuthModule =
     \<lparr>m_name = ''AuthModule'', m_filePath = Some ''src/auth.module.ts'',
      m_imports =
        [\<lparr>i_name = ''UnknownModule_1'', i_path = None, i_isAsync = Some False,
          i_dependencies = Some [], i_isForwardReference = None, i_module = None\<rparr>],
      m_exports = [], m_providers = [], m_controllers = [], m_entityCount = 0\<rparr>"

section \<open>The linking pass\<close>

subsection \<open>What the lookups read is never written\<close>

lemma find_provIds:
  "map provIds ps = map provIds qs \<Longrightarrow>
   map_option p_name (find (\<lambda>p. p_name p = n \<or> p_provide p = Some n) ps) =
   map_option p_name (find (\<lambda>p. p_name p = n \<or> p_provide p = Some n) qs)"
proof (induction ps arbitrary: qs)
  case Nil
  then show ?case by simp
next
  case (Cons p ps)
  then obtain q qs' where q: "qs = q # qs'" "provIds p = provIds q" "map provIds ps = map provIds qs'"
    by (cases qs) auto
  from q(2) have "p_name p = p_name q" "p_provide p = p_provide q"
    by (simp_all add: provIds_def)
  with Cons.IH [OF q(3)] q(1) show ?case by simp
qed

lemma findProviderByName_modIds:
  "map modIds xs = map modIds ys \<Longrightarrow>
   map_option p_name (findProviderByName xs n) = map_option p_name (findProviderByName ys n)"
proof (induction xs arbitrary: ys)
  case Nil
  then show ?case by simp
next
  case (Cons x xs)
  then obtain y ys' where y: "ys = y # ys'" "modIds x = modIds y" "map modIds xs = map modIds ys'"
    by (cases ys) auto
  from y(2) have "map provIds (m_providers x) = map provIds (m_providers y)"
    by (simp add: modIds_def)
  from find_provIds [OF this, of n] Cons.IH [OF y(3)] y(1) show ?case
    by (auto split: option.splits)
qed

lemma resolveDep_modIds:
  "map modIds xs = map modIds ys \<Longrightarrow> resolveDep xs dep = resolveDep ys dep"
  using findProviderByName_modIds [of xs ys dep]
  by (auto simp: resolveDep_def split: option.splits)

lemma findModule_modIds:
  "map modIds xs = map modIds ys \<Longrightarrow>
   map_option (\<lambda>(a, m). (a, modIds m)) (findModule n xs i) =
   map_option (\<lambda>(a, m). (a, modIds m)) (findModule n ys i)"
proof (induction xs arbitrary: ys i)
  case Nil
  then show ?case by simp
next
  case (Cons x xs)
  then obtain y ys' where y: "ys = y # ys'" "modIds x = modIds y" "map modIds xs = map modIds ys'"
    by (cases ys) auto
  from y(2) have "m_name x = m_name y" by (simp add: modIds_def)
  with Cons.IH [OF y(3)] y(1,2) show ?case by simp
qed

lemma linkImport_modIds:
  "map modIds xs = map modIds ys \<Longrightarrow> linkImport xs imp = linkImport ys imp"
  using findModule_modIds [of xs ys "i_name imp" 0]
  by (auto simp: linkImport_def modIds_def split: option.splits)

lemma provIds_resolveProvider: "provIds (resolveProvider ms p) = provIds p"
  by (simp add: provIds_def resolveProvider_def)

lemma modIds_linkModule: "modIds (linkModule ms m) = modIds m"
  by (simp add: modIds_def linkModule_def provIds_resolveProvider)

lemma modIds_providers_cong:
  "map provIds ps = map provIds qs \<Longrightarrow>
   modIds (m\<lparr>m_providers := ps\<rparr>) = modIds (m\<lparr>m_providers := qs\<rparr>)"
  by (simp add: modIds_def)

lemma modIds_imports: "modIds (m\<lparr>m_imports := is\<rparr>) = modIds m"
  by (simp add: modIds_def)

subsection \<open>The in-place loops compute the closed form\<close>

lemma resolveProviders_closed:
  "map modIds (pre @ [m\<lparr>m_providers := done @ todo\<rparr>] @ post) = map modIds ref \<Longrightarrow>
   resolveProviders pre m post done todo = done @ map (resolveProvider ref) todo"
proof (induction todo arbitrary: "done")
  case Nil
  then show ?case by simp
next
  case (Cons p todo)
  let ?p' = "p\<lparr>p_dependencies := map (resolveDep (pre @ [m\<lparr>m_providers := done @ p # todo\<rparr>] @ post)) (p_dependencies p)\<rparr>"
  have eq: "?p' = resolveProvider ref p"
    using resolveDep_modIds [OF Cons.prems] by (simp add: resolveProvider_def)
  have "map provIds ((done @ [?p']) @ todo) = map provIds (done @ p # todo)"
    by (simp add: provIds_def)
  from modIds_providers_cong [OF this, of m]
  have "map modIds (pre @ [m\<lparr>m_providers := (done @ [?p']) @ todo\<rparr>] @ post) = map modIds ref"
    using Cons.prems by simp
  from Cons.IH [OF this] eq show ?case by (simp add: Let_def)
qed

lemma resolveLoop_closed:
  "map modIds (modValues (pre @ post)) = map modIds ref \<Longrightarrow>
   resolveLoop pre post = pre @ map (linkEntry ref) post"
proof (induction post arbitrary: pre)
  case Nil
  then show ?case by simp
next
  case (Cons e post)
  obtain k m where e: "e = (k, m)" by (cases e)
  let ?cur = "modValues pre @ [m] @ modValues post"
  let ?m1 = "m\<lparr>m_imports := map (linkImport ?cur) (m_imports m)\<rparr>"
  have cur: "map modIds ?cur = map modIds ref"
    using Cons.prems e by (simp add: modValues_def)
  have imps: "map (linkImport ?cur) (m_imports m) = map (linkImport ref) (m_imports m)"
    using linkImport_modIds [OF cur] by simp
  have "map modIds (modValues pre @ [?m1\<lparr>m_providers := [] @ m_providers ?m1\<rparr>] @ modValues post) = map modIds ref"
    using cur by (simp add: modIds_imports)
  from resolveProviders_closed [OF this]
  have ps: "resolveProviders (modValues pre) ?m1 (modValues post) [] (m_providers ?m1) =
            map (resolveProvider ref) (m_providers m)" by simp
  have m': "?m1\<lparr>m_providers := map (resolveProvider ref) (m_providers m)\<rparr> = linkModule ref m"
    using imps by (simp add: linkModule_def)
  have "map modIds (modValues ((pre @ [(k, linkModule ref m)]) @ post)) = map modIds ref"
    using cur by (simp add: modValues_def modIds_linkModule)
  from Cons.IH [OF this] ps m' e show ?case
    by (simp add: Let_def linkEntry_def del: append_assoc)
qed

lemma resolveModuleDependencies_closed:
  "resolveModuleDependencies g = map (linkEntry (modValues g)) g"
  using resolveLoop_closed [of "[]" g "modValues g"]
  by (simp add: resolveModuleDependencies_def)

lemma modValues_linked:
  "modValues (resolveModuleDependencies g) = map (linkModule (modValues g)) (modValues g)"
  by (simp add: resolveModuleDependencies_closed modValues_def linkEntry_def)

lemma modIds_linked:
  "map modIds (modValues (resolveModuleDependencies g)) = map modIds (modValues g)"
  by (simp add: modValues_linked modIds_linkModule)

lemma m_name_linkModule: "m_name (linkModule ms m) = m_name m"
  by (simp add: linkModule_def)

lemma names_linked:
  "map m_name (modValues (resolveModuleDependencies g)) = map m_name (modValues g)"
  by (simp add: modValues_linked m_name_linkModule)

lemma exampleGraph_linked:
  "resolveModuleDependencies exampleGraph =
     [(''AModule'',
       \<lparr>m_name = ''AModule'', m_filePath = Some ''src/a.module.ts'',
        m_imports =
          [\<lparr>i_name = ''BModule'', i_path = Some ''src/b.module.ts'', i_isAsync = Some False,
            i_dependencies = Some [], i_isForwardReference = None,
            i_module = Some \<lparr>pm_name = ''BModule'', pm_providers = 1, pm_controllers = []\<rparr>\<rparr>,
           \<lparr>i_name = ''ConfigModule'', i_path = None, i_isAsync = Some False,
            i_dependencies = Some [], i_isForwardReference = None, i_module = None\<rparr>],
        m_exports = [],
        m_providers = [mkProvider ''AService'' (Some ''AService'') [''BService'', ''Logger'']],
        m_controllers = [''AController''], m_entityCount = 0\<rparr>),
      (''BModule'',
       \<lparr>m_name = ''BModule'', m_filePath = Some ''src/b.module.ts'',
        m_imports = [], m_exports = [''BService''],
        m_providers = [mkProvider ''BService'' (Some ''BService'') []],
        m_controllers = [], m_entityCount = 0\<rparr>)]"
  by (simp add: resolveModuleDependencies_def exampleGraph_def mkProvider_def mkImport_def
      modValues_def Let_def resolveDep_def linkImport_def)

subsection \<open>Provider dependency linking\<close>

lemma find_append:
  "find P (xs @ ys) = (case find P xs of Some x \<Rightarrow> Some x | None \<Rightarrow> find P ys)"
  by (induction xs) auto

lemma findProviderByName_concat:
  "findProviderByName ms n =
   find (\<lambda>p. p_name p = n \<or> p_provide p = Some n) (concat (map m_providers ms))"
  by (induction ms) (simp_all add: find_append split: option.splits)

lemma resolveDep_canonicalName: "resolveDep (modValues g) dep = canonicalName g dep"
  by (simp add: resolveDep_def canonicalName_def firstProvider_def findProviderByName_concat)

text \<open>
  Claim C3. After the linking pass, every entry of every provider's dependencies list is
  the canonical name of the first provider, scanning the provider lists of all modules
  in mapping order, whose \<^verbatim>\<open>name\<close> or \<^verbatim>\<open>provide\<close> equals the original entry; where
  no provider of the mapping matches, the entry is the original name. The equation
  compares, module by module and provider by provider, the dependencies lists after the
  pass with the image of the original lists under \<open>canonicalName\<close>.
\<close>

theorem provider_dependency_linking:
  "map (\<lambda>m. map p_dependencies (m_providers m)) (modValues (resolveModuleDependencies g)) =
   map (\<lambda>m. map (\<lambda>p. map (canonicalName g) (p_dependencies p)) (m_providers m)) (modValues g)"
proof -
  have "resolveDep (modValues g) = canonicalName g"
    by (rule ext) (rule resolveDep_canonicalName)
  then show ?thesis
    by (simp add: modValues_linked linkModule_def resolveProvider_def comp_def)
qed

subsection \<open>Import linking\<close>

lemma findModule_Some:
  "findModule n ms i = Some (a, t) \<Longrightarrow> i \<le> a \<and> a - i < length ms \<and> ms ! (a - i) = t \<and> m_name t = n"
proof (induction ms arbitrary: i)
  case Nil
  then show ?case by simp
next
  case (Cons m ms)
  show ?case
  proof (cases "m_name m = n")
    case True
    with Cons.prems show ?thesis by simp
  next
    case False
    with Cons.prems have "findModule n ms (Suc i) = Some (a, t)" by simp
    from Cons.IH [OF this] show ?thesis
      by (auto simp: Suc_diff_le)
  qed
qed

lemma findModule_None: "findModule n ms i = None \<longleftrightarrow> (\<forall>m \<in> set ms. m_name m \<noteq> n)"
  by (induction ms arbitrary: i) auto

lemma distinct_names_nth:
  "distinct (map m_name ms) \<Longrightarrow> a < length ms \<Longrightarrow> t \<in> set ms \<Longrightarrow> m_name t = m_name (ms ! a) \<Longrightarrow> t = ms ! a"
proof -
  assume d: "distinct (map m_name ms)" and a: "a < length ms" and t: "t \<in> set ms"
    and n: "m_name t = m_name (ms ! a)"
  from t obtain b where b: "b < length ms" "ms ! b = t" by (auto simp: in_set_conv_nth)
  with a n have "map m_name ms ! b = map m_name ms ! a" by simp
  moreover have "a < length (map m_name ms)" "b < length (map m_name ms)" using a b(1) by simp_all
  ultimately have "b = a" using d nth_eq_iff_index_eq [of "map m_name ms" b a] by blast
  with b(2) show ?thesis by simp
qed

lemma findModule_linked:
  "findModule n (map (linkModule vs) ms) i =
   map_option (\<lambda>(a, m). (a, linkModule vs m)) (findModule n ms i)"
  by (induction ms arbitrary: i) (simp_all add: m_name_linkModule)

text \<open>
  Claim C2. After the linking pass, for every import of every module of the mapping: if
  a module of the mapping has the import's name, the import's path is that module's
  file path and its module snapshot holds exactly that module's name, providers and
  controllers (\<open>linkedTo\<close>); if no module of the mapping has the import's name, path
  and module are unset. The module in question is the one that the lookup
  \<^verbatim>\<open>find((m) => m.name === imp.name)\<close> returns, the first of that name in mapping order;
  module names are the keys of the mapping, and when they are pairwise distinct it is
  the only module of that name. The snapshot's providers are read through
  \<open>snapshotProviders\<close>, since the snapshot shares the array with the module it was
  taken from.
\<close>

theorem import_linking:
  assumes m: "(k, m) \<in> set (resolveModuleDependencies g)"
    and imp: "imp \<in> set (m_imports m)"
  shows "(\<forall>a t. findModule (i_name imp) (modValues (resolveModuleDependencies g)) 0 = Some (a, t) \<longrightarrow>
            linkedTo (resolveModuleDependencies g) imp t)
       \<and> ((\<forall>t \<in> set (modValues (resolveModuleDependencies g)). m_name t \<noteq> i_name imp) \<longrightarrow>
            i_path imp = None \<and> i_module imp = None)
       \<and> (distinct (map m_name (modValues g)) \<longrightarrow>
            (\<forall>t \<in> set (modValues (resolveModuleDependencies g)). m_name t = i_name imp \<longrightarrow>
               linkedTo (resolveModuleDependencies g) imp t))"
proof -
  let ?vs = "modValues g"
  let ?g' = "resolveModuleDependencies g"
  let ?vs' = "modValues ?g'"
  have vs': "?vs' = map (linkModule ?vs) ?vs" by (rule modValues_linked)
  from m have "m \<in> set ?vs'" by (force simp: modValues_def)
  then obtain m0 where m0: "m = linkModule ?vs m0" by (auto simp: vs')
  with imp obtain imp0 where imp0: "imp = linkImport ?vs imp0"
    by (auto simp: linkModule_def)
  let ?n = "i_name imp0"
  have n: "i_name imp = ?n" by (simp add: imp0 linkImport_def split: option.splits)
  have fm: "findModule ?n ?vs' 0 = map_option (\<lambda>(a, m). (a, linkModule ?vs m)) (findModule ?n ?vs 0)"
    unfolding vs' by (rule findModule_linked)
  show ?thesis
  proof (cases "findModule ?n ?vs 0")
    case None
    then have "findModule ?n ?vs' 0 = None" by (simp add: fm)
    moreover from None have "i_path imp = None \<and> i_module imp = None"
      by (simp add: imp0 linkImport_def)
    moreover from None have "\<forall>t \<in> set ?vs. m_name t \<noteq> ?n" by (simp add: findModule_None)
    then have "\<forall>t \<in> set ?vs'. m_name t \<noteq> ?n" by (simp add: vs' m_name_linkModule)
    ultimately show ?thesis by (simp add: n)
  next
    case (Some r)
    obtain a t0 where r: "r = (a, t0)" by (cases r)
    let ?t = "linkModule ?vs t0"
    from findModule_Some [of ?n ?vs 0 a t0] Some r
    have a: "a < length ?vs" "?vs ! a = t0" "m_name t0 = ?n" by simp_all
    let ?s = "\<lparr>pm_name = m_name t0, pm_providers = a, pm_controllers = m_controllers t0\<rparr>"
    from Some r have fields: "i_path imp = m_filePath t0" "i_module imp = Some ?s"
      by (simp_all add: imp0 linkImport_def)
    have ta: "?vs' ! a = ?t" using a by (simp add: vs')
    have first: "findModule ?n ?vs' 0 = Some (a, ?t)" using Some r by (simp add: fm)
    have linked: "linkedTo ?g' imp ?t"
      using fields ta by (simp add: linkedTo_def snapshotProviders_def linkModule_def)
    have "?t \<in> set ?vs'" using a by (auto simp: vs')
    then have some: "\<not> (\<forall>t \<in> set ?vs'. m_name t \<noteq> ?n)"
      using a(3) m_name_linkModule [of ?vs t0] by metis
    have uniq: "t = ?t" if d: "distinct (map m_name ?vs)" and t: "t \<in> set ?vs'" "m_name t = ?n" for t
    proof -
      have d': "distinct (map m_name ?vs')" using d by (simp add: names_linked)
      have "a < length ?vs'" using a(1) by (simp add: vs')
      moreover have "m_name t = m_name (?vs' ! a)" using t(2) a(3) ta by (simp add: m_name_linkModule)
      ultimately have "t = ?vs' ! a" using distinct_names_nth [OF d' _ t(1)] by blast
      with ta show ?thesis by simp
    qed
    show ?thesis unfolding n using first linked some uniq by auto
  qed
qed

theorem import_linking_witness:
  "(''AModule'', snd (resolveModuleDependencies exampleGraph ! 0))
     \<in> set (resolveModuleDependencies exampleGraph)
   \<and> distinct (map m_name (modValues exampleGraph))
   \<and> m_name (snd (resolveModuleDependencies exampleGraph ! 1)) = ''BModule''
   \<and> linkedTo (resolveModuleDependencies exampleGraph)
        (m_imports (snd (resolveModuleDependencies exampleGraph ! 0)) ! 0)
        (snd (resolveModuleDependencies exampleGraph ! 1))
   \<and> i_path (m_imports (snd (resolveModuleDependencies exampleGraph ! 0)) ! 0) = Some ''src/b.module.ts''
   \<and> i_path (m_imports (snd (resolveModuleDependencies exampleGraph ! 0)) ! 1) = None
   \<and> i_module (m_imports (snd (resolveModuleDependencies exampleGraph ! 0)) ! 1) = None"
proof -
  let ?g' = "resolveModuleDependencies exampleGraph"
  let ?m = "snd (?g' ! 0)"
  let ?t = "snd (?g' ! 1)"
  have d: "distinct (map m_name (modValues exampleGraph))"
    by (simp add: exampleGraph_def modValues_def)
  have m: "(''AModule'', ?m) \<in> set ?g'"
    by (simp add: exampleGraph_linked)
  have i0: "m_imports ?m ! 0 \<in> set (m_imports ?m)" and i1: "m_imports ?m ! 1 \<in> set (m_imports ?m)"
    by (simp_all add: exampleGraph_linked)
  have t: "?t \<in> set (modValues ?g')" "m_name ?t = i_name (m_imports ?m ! 0)"
    "m_name ?t = ''BModule''"
    by (simp_all add: exampleGraph_linked modValues_def)
  have f: "findModule (i_name (m_imports ?m ! 0)) (modValues ?g') 0 = Some (1, ?t)"
    by (simp add: exampleGraph_linked modValues_def)
  have u: "\<forall>t \<in> set (modValues ?g'). m_name t \<noteq> i_name (m_imports ?m ! 1)"
    by (simp add: exampleGraph_linked modValues_def)
  from import_linking [OF m i0] f have l: "linkedTo ?g' (m_imports ?m ! 0) ?t"
    by blast
  from import_linking [OF m i0] d t have "linkedTo ?g' (m_imports ?m ! 0) ?t"
    by blast
  from l have p: "i_path (m_imports ?m ! 0) = m_filePath ?t"
    by (simp add: linkedTo_def)
  have fp: "m_filePath ?t = Some ''src/b.module.ts''"
    by (simp add: exampleGraph_linked)
  from import_linking [OF m i1] u
  have "i_path (m_imports ?m ! 1) = None \<and> i_module (m_imports ?m ! 1) = None"
    by blast
  with m d t l p fp show ?thesis by simp
qed

subsection \<open>Linking a second time\<close>

text \<open>
  The second pass makes its lookups in the mapping that the first pass returned. That
  mapping has the module names, file paths, controller lists and provider names and
  tokens of the original, so every lookup of the second pass finds what the first pass
  found: an import is linked to the same module, with the same snapshot. A dependency
  entry, however, is by then the canonical name that the first pass wrote, and the
  second pass looks that name up again. Where every provider's token is its own name,
  a provider found for an entry has the entry as its name, so the pass leaves every
  entry as it is.
\<close>

lemma findProviderByName_tokens:
  "\<forall>m \<in> set ms. \<forall>p \<in> set (m_providers m). p_provide p = None \<or> p_provide p = Some (p_name p) \<Longrightarrow>
   findProviderByName ms n = Some r \<Longrightarrow> p_name r = n"
proof (induction ms)
  case Nil
  then show ?case by simp
next
  case (Cons m ms)
  show ?case
  proof (cases "find (\<lambda>p. p_name p = n \<or> p_provide p = Some n) (m_providers m)")
    case None
    with Cons show ?thesis by simp
  next
    case (Some p)
    then have "p \<in> set (m_providers m)" "p_name p = n \<or> p_provide p = Some n"
      by (auto simp: find_Some_iff)
    moreover from Some Cons.prems(2) have "r = p" by simp
    ultimately show ?thesis using Cons.prems(1) by auto
  qed
qed

lemma resolveDep_tokens:
  "tokensAreNames g \<Longrightarrow> resolveDep (modValues g) dep = dep"
  using findProviderByName_tokens [of "modValues g" dep]
  by (auto simp: resolveDep_def tokensAreNames_def split: option.splits)

lemma linkModule_tokens:
  "tokensAreNames g \<Longrightarrow> linkModule (modValues g) m = m\<lparr>m_imports := map (linkImport (modValues g)) (m_imports m)\<rparr>"
proof -
  assume t: "tokensAreNames g"
  have r: "resolveDep (modValues g) = (\<lambda>d. d)"
    by (rule ext) (rule resolveDep_tokens [OF t])
  have "resolveProvider (modValues g) = (\<lambda>p. p)"
    by (rule ext) (simp add: resolveProvider_def r)
  then show ?thesis by (simp add: linkModule_def)
qed

lemma linkImport_twice: "linkImport ms (linkImport ms imp) = linkImport ms imp"
  by (simp add: linkImport_def split: option.splits)

lemma tokensAreNames_linked:
  "tokensAreNames g \<Longrightarrow> tokensAreNames (resolveModuleDependencies g)"
  by (auto simp: tokensAreNames_def modValues_linked linkModule_def resolveProvider_def)

lemma relinking_stable_tokens:
  assumes "tokensAreNames g"
  shows "resolveModuleDependencies (resolveModuleDependencies g) = resolveModuleDependencies g"
proof -
  let ?g' = "resolveModuleDependencies g"
  have t': "tokensAreNames ?g'" using assms by (rule tokensAreNames_linked)
  have li: "linkImport (modValues ?g') = linkImport (modValues g)"
    by (rule ext) (rule linkImport_modIds [OF modIds_linked])
  have "linkModule (modValues ?g') (linkModule (modValues g) m) = linkModule (modValues g) m" for m
    by (simp add: linkModule_tokens [OF t'] linkModule_tokens [OF assms] li linkImport_twice)
  then have "linkEntry (modValues ?g') (linkEntry (modValues g) e) = linkEntry (modValues g) e" for e
    by (simp add: linkEntry_def)
  then have "map (linkEntry (modValues ?g')) (map (linkEntry (modValues g)) g) = map (linkEntry (modValues g)) g"
    by (simp add: comp_def)
  then show ?thesis
    using resolveModuleDependencies_closed [of ?g'] resolveModuleDependencies_closed [of g] by simp
qed

text \<open>
  For an arbitrary mapping, the second pass returns what the first returned exactly when
  resolving a resolved dependency entry again yields the same name.
\<close>

lemma relinking_twice:
  "linkModule (modValues (resolveModuleDependencies g)) (linkModule (modValues g) m) =
   m\<lparr>m_imports := map (linkImport (modValues g)) (m_imports m),
     m_providers := map (\<lambda>p. p\<lparr>p_dependencies :=
                              map (\<lambda>d. canonicalName g (canonicalName g d)) (p_dependencies p)\<rparr>)
                        (m_providers m)\<rparr>"
proof -
  let ?vs = "modValues g" and ?vs' = "modValues (resolveModuleDependencies g)"
  have li: "linkImport ?vs' = linkImport ?vs"
    by (rule ext) (rule linkImport_modIds [OF modIds_linked])
  have rd: "resolveDep ?vs' = resolveDep ?vs"
    by (rule ext) (rule resolveDep_modIds [OF modIds_linked])
  have rd': "resolveDep ?vs = canonicalName g"
    by (rule ext) (rule resolveDep_canonicalName)
  show ?thesis
    unfolding rd li linkModule_def resolveProvider_def rd'
    by (simp add: linkImport_twice comp_def)
qed

lemma relinking_stable_iff:
  "resolveModuleDependencies (resolveModuleDependencies g) = resolveModuleDependencies g \<longleftrightarrow>
   (\<forall>m \<in> set (modValues g). \<forall>p \<in> set (m_providers m). \<forall>d \<in> set (p_dependencies p).
      canonicalName g (canonicalName g d) = canonicalName g d)"
proof -
  let ?vs = "modValues g" and ?vs' = "modValues (resolveModuleDependencies g)"
  let ?r = "canonicalName g"
  have rd': "resolveDep ?vs = ?r"
    by (rule ext) (rule resolveDep_canonicalName)
  have one: "linkModule ?vs m =
      m\<lparr>m_imports := map (linkImport ?vs) (m_imports m),
        m_providers := map (\<lambda>p. p\<lparr>p_dependencies := map ?r (p_dependencies p)\<rparr>)
                           (m_providers m)\<rparr>" for m
    by (simp add: linkModule_def resolveProvider_def rd')
  have prov: "p\<lparr>p_dependencies := map (\<lambda>d. ?r (?r d)) (p_dependencies p)\<rparr> =
              p\<lparr>p_dependencies := map ?r (p_dependencies p)\<rparr> \<longleftrightarrow>
              (\<forall>d \<in> set (p_dependencies p). ?r (?r d) = ?r d)" for p :: ProviderMetadata
  proof
    assume "p\<lparr>p_dependencies := map (\<lambda>d. ?r (?r d)) (p_dependencies p)\<rparr> =
            p\<lparr>p_dependencies := map ?r (p_dependencies p)\<rparr>"
    then have "p_dependencies (p\<lparr>p_dependencies := map (\<lambda>d. ?r (?r d)) (p_dependencies p)\<rparr>) =
               p_dependencies (p\<lparr>p_dependencies := map ?r (p_dependencies p)\<rparr>)"
      by (rule arg_cong)
    then show "\<forall>d \<in> set (p_dependencies p). ?r (?r d) = ?r d" by simp
  next
    assume "\<forall>d \<in> set (p_dependencies p). ?r (?r d) = ?r d"
    then have "map (\<lambda>d. ?r (?r d)) (p_dependencies p) = map ?r (p_dependencies p)" by simp
    then show "p\<lparr>p_dependencies := map (\<lambda>d. ?r (?r d)) (p_dependencies p)\<rparr> =
               p\<lparr>p_dependencies := map ?r (p_dependencies p)\<rparr>" by simp
  qed
  have modl: "linkModule ?vs' (linkModule ?vs m) = linkModule ?vs m \<longleftrightarrow>
      (\<forall>p \<in> set (m_providers m). \<forall>d \<in> set (p_dependencies p). ?r (?r d) = ?r d)" for m
  proof -
    have "linkModule ?vs' (linkModule ?vs m) = linkModule ?vs m \<longleftrightarrow>
        map (\<lambda>p. p\<lparr>p_dependencies := map (\<lambda>d. ?r (?r d)) (p_dependencies p)\<rparr>) (m_providers m) =
        map (\<lambda>p. p\<lparr>p_dependencies := map ?r (p_dependencies p)\<rparr>) (m_providers m)"
      (is "?L \<longleftrightarrow> ?R")
    proof
      assume ?L
      then have "m_providers (linkModule ?vs' (linkModule ?vs m)) = m_providers (linkModule ?vs m)"
        by (rule arg_cong)
      then have "m_providers (m\<lparr>m_imports := map (linkImport ?vs) (m_imports m),
          m_providers := map (\<lambda>p. p\<lparr>p_dependencies := map (\<lambda>d. ?r (?r d)) (p_dependencies p)\<rparr>)
                             (m_providers m)\<rparr>) = m_providers (linkModule ?vs m)"
        by (simp only: relinking_twice)
      then show ?R by (simp add: one)
    next
      assume r: ?R
      have "linkModule ?vs' (linkModule ?vs m) =
          m\<lparr>m_imports := map (linkImport ?vs) (m_imports m),
            m_providers := map (\<lambda>p. p\<lparr>p_dependencies := map (\<lambda>d. ?r (?r d)) (p_dependencies p)\<rparr>)
                               (m_providers m)\<rparr>"
        by (rule relinking_twice)
      also have "\<dots> = linkModule ?vs m" by (simp only: r one)
      finally show ?L .
    qed
    also have "\<dots> \<longleftrightarrow> (\<forall>p \<in> set (m_providers m).
        p\<lparr>p_dependencies := map (\<lambda>d. ?r (?r d)) (p_dependencies p)\<rparr> =
        p\<lparr>p_dependencies := map ?r (p_dependencies p)\<rparr>)"
      by (rule map_eq_conv)
    finally show ?thesis by (simp only: prov)
  qed
  have "resolveModuleDependencies (resolveModuleDependencies g) = resolveModuleDependencies g \<longleftrightarrow>
      map (\<lambda>e. linkEntry ?vs' (linkEntry ?vs e)) g = map (linkEntry ?vs) g"
    using resolveModuleDependencies_closed [of "resolveModuleDependencies g"]
      resolveModuleDependencies_closed [of g] by (simp add: comp_def)
  also have "\<dots> \<longleftrightarrow> (\<forall>e \<in> set g. linkEntry ?vs' (linkEntry ?vs e) = linkEntry ?vs e)"
    by (rule map_eq_conv)
  also have "\<dots> \<longleftrightarrow> (\<forall>m \<in> set ?vs. linkModule ?vs' (linkModule ?vs m) = linkModule ?vs m)"
    by (auto simp: linkEntry_def modValues_def)
  finally show ?thesis by (simp only: modl)
qed

section \<open>Single-file extraction\<close>

subsection \<open>The sum of errors and values\<close>

lemma bindE_Inr [simp]: "bindE (Inr x) f = f x"
  by (simp add: bindE_def)

lemma bindE_Inl [simp]: "bindE (Inl e) f = Inl e"
  by (simp add: bindE_def)

lemma bindE_assoc: "bindE (bindE r f) g = bindE r (\<lambda>x. bindE (f x) g)"
  by (cases r) (simp_all add: bindE_def)

subsection \<open>Evaluation on concrete files\<close>

text \<open>The definitions that the simplifier unfolds to run the extractor on a concrete file.\<close>

lemmas file_defs = moduleFile_def moduleClass_def moduleDecorator_def importsField_def field_def
  stringLiteral_def namedImport_def

lemmas parse_defs = parseModule_def findModuleClass_def isQualifyingModuleClass_def
  hasDecorator_def findDecorator_def startsWith_def parseModuleDecorator_def
  extractImports_def extractExports_def extractProviders_def extractControllers_def
  extractEntityCount_def arrayField_def findPropertyAssignment_def importElement_def
  parseAsyncImport_def createImportMetadata_def createUnknownImport_def resolveImportPath_def
  importMatches_def parseProvider_def parseProviderObjectLiteral_def createProviderMetadata_def
  getPropertyValue_def getArrayPropertyValue_def identifierTexts_def truthy_def dropNull_def
  findClassDeclaration_def extractConstructorDependencies_def isClassInjectable_def
  countElement_def addWhen_def countArrayArgument_def countEntitiesField_def
  enrichWithSecondLevelDependencies_def getModuleDependencies_def
  getProviderDependencyTree.simps initialState_def Let_def

subsection \<open>Provider declarations\<close>

lemma truthy_namedBinding:
  "truthy (getPropertyValue ps n) \<longleftrightarrow> namedBinding ps n \<noteq> None"
  "namedBinding ps n = Some s \<Longrightarrow> getPropertyValue ps n = Some s"
  by (auto simp: truthy_def namedBinding_def split: option.splits if_splits)

lemma no_field_no_binding: "\<not> hasField ps n \<Longrightarrow> namedBinding ps n = None"
  by (simp add: hasField_def namedBinding_def getPropertyValue_def)

text \<open>
  The classification that \<^verbatim>\<open>parseProviderObjectLiteral\<close> computes. A field is a binding
  when its initializer is an identifier or a string literal with a non-empty text:
  then \<^verbatim>\<open>getPropertyValue\<close> returns a string that the \<^verbatim>\<open>if\<close> tests accept. An object
  literal without a \<^verbatim>\<open>provide\<close> field, or whose \<^verbatim>\<open>provide\<close> is no binding, is discarded.
  Otherwise the provider is named by its \<^verbatim>\<open>provide\<close> binding, and it has type
  \<^verbatim>\<open>class\<close>, with the constructor dependencies of the class of that name declared in
  the file, when \<^verbatim>\<open>useClass\<close> is a binding; else type \<^verbatim>\<open>factory\<close>, with the identifiers
  of its \<^verbatim>\<open>inject\<close> array, when \<^verbatim>\<open>useFactory\<close> is a binding; else type \<^verbatim>\<open>value\<close>, with no
  dependencies, when \<^verbatim>\<open>getPropertyValue\<close> returns a string for \<^verbatim>\<open>useValue\<close>: the
  precedence is class, factory, value. Where none of the three tests holds, the initial
  assignment \<^verbatim>\<open>type = 'class'\<close>, \<^verbatim>\<open>dependencies = []\<close> stays.
\<close>

lemma provider_object_literal:
  "(\<not> hasField properties ''provide'' \<longrightarrow>
      fst (parseProvider sf st (ObjectLiteralExpression t properties)) = None)
   \<and> (namedBinding properties ''provide'' = None \<longrightarrow>
      fst (parseProvider sf st (ObjectLiteralExpression t properties)) = None)
   \<and> (\<forall>n. namedBinding properties ''provide'' = Some n \<longrightarrow>
        (\<exists>p. fst (parseProvider sf st (ObjectLiteralExpression t properties)) = Some p
           \<and> p_name p = n
           \<and> (case namedBinding properties ''useClass'' of
                Some c \<Rightarrow> p_type p = Class \<and> p_dependencies p = constructorDependenciesOf sf c
              | None \<Rightarrow>
                 (case namedBinding properties ''useFactory'' of
                    Some f \<Rightarrow> p_type p = Factory \<and> p_dependencies p = injectList properties
                  | None \<Rightarrow>
                     if getPropertyValue properties ''useValue'' \<noteq> None
                     then p_type p = Value \<and> p_dependencies p = []
                     else p_type p = Class \<and> p_dependencies p = []))))"
proof -
  have a: "namedBinding properties ''provide'' = None \<longrightarrow>
      fst (parseProvider sf st (ObjectLiteralExpression t properties)) = None"
    by (simp add: parseProvider_def parseProviderObjectLiteral_def truthy_namedBinding(1))
  have b: "\<exists>p. fst (parseProvider sf st (ObjectLiteralExpression t properties)) = Some p
           \<and> p_name p = n
           \<and> (case namedBinding properties ''useClass'' of
                Some c \<Rightarrow> p_type p = Class \<and> p_dependencies p = constructorDependenciesOf sf c
              | None \<Rightarrow>
                 (case namedBinding properties ''useFactory'' of
                    Some f \<Rightarrow> p_type p = Factory \<and> p_dependencies p = injectList properties
                  | None \<Rightarrow>
                     if getPropertyValue properties ''useValue'' \<noteq> None
                     then p_type p = Value \<and> p_dependencies p = []
                     else p_type p = Class \<and> p_dependencies p = []))"
    if n: "namedBinding properties ''provide'' = Some n" for n
  proof -
    from n have t: "truthy (getPropertyValue properties ''provide'')"
      by (simp add: truthy_namedBinding(1))
    from n have g: "getPropertyValue properties ''provide'' = Some n"
      by (rule truthy_namedBinding(2))
    show ?thesis
    proof (cases "namedBinding properties ''useClass''")
      case (Some c)
      then have "truthy (getPropertyValue properties ''useClass'')"
        by (simp add: truthy_namedBinding(1))
      moreover from Some have "getPropertyValue properties ''useClass'' = Some c"
        by (rule truthy_namedBinding(2))
      ultimately show ?thesis using t g Some
        by (simp add: parseProvider_def parseProviderObjectLiteral_def Let_def
            constructorDependenciesOf_def)
    next
      case None
      then have c: "\<not> truthy (getPropertyValue properties ''useClass'')"
        by (simp add: truthy_namedBinding(1))
      show ?thesis
      proof (cases "namedBinding properties ''useFactory''")
        case (Some f)
        then have "truthy (getPropertyValue properties ''useFactory'')"
          by (simp add: truthy_namedBinding(1))
        with t g c None Some show ?thesis
          by (simp add: parseProvider_def parseProviderObjectLiteral_def Let_def injectList_def)
      next
        case None': None
        then have "\<not> truthy (getPropertyValue properties ''useFactory'')"
          by (simp add: truthy_namedBinding(1))
        with t g c None None' show ?thesis
          by (simp add: parseProvider_def parseProviderObjectLiteral_def Let_def)
      qed
    qed
  qed
  from a have a': "\<not> hasField properties ''provide'' \<longrightarrow>
      fst (parseProvider sf st (ObjectLiteralExpression t properties)) = None"
    by (simp add: no_field_no_binding)
  from a' a b show ?thesis by blast
qed

lemma provider_object_literal_examples:
  "\<not> hasField unnamedProvider ''provide''
   \<and> fst (parseProvider repoFile initialState (ObjectLiteralExpression ''{...}'' unnamedProvider)) = None
   \<and> map_option (\<lambda>p. (p_name p, p_type p, p_dependencies p))
        (fst (parseProvider repoFile initialState (ObjectLiteralExpression ''{...}'' classProvider)))
      = Some (''REPO'', Class, [''Database'', ''Logger''])
   \<and> map_option (\<lambda>p. (p_name p, p_type p, p_dependencies p))
        (fst (parseProvider repoFile initialState (ObjectLiteralExpression ''{...}'' valueProvider)))
      = Some (''LIMIT'', Value, [])"
proof -
  note defs = namedBinding_def getPropertyValue_def findPropertyAssignment_def field_def
    stringLiteral_def
  have h: "\<not> hasField unnamedProvider ''provide''"
    by (simp add: hasField_def unnamedProvider_def defs)
  have c: "namedBinding classProvider ''provide'' = Some ''REPO''"
    "namedBinding classProvider ''useClass'' = Some ''Repo''"
    "constructorDependenciesOf repoFile ''Repo'' = [''Database'', ''Logger'']"
    by (simp_all add: classProvider_def defs constructorDependenciesOf_def repoFile_def
        findClassDeclaration_def extractConstructorDependencies_def)
  have v: "namedBinding valueProvider ''provide'' = Some ''LIMIT''"
    "namedBinding valueProvider ''useClass'' = None"
    "namedBinding valueProvider ''useFactory'' = None"
    "getPropertyValue valueProvider ''useValue'' \<noteq> None"
    by (simp_all add: valueProvider_def defs)
  from provider_object_literal [of unnamedProvider repoFile initialState "''{...}''"] h
  have 1: "fst (parseProvider repoFile initialState (ObjectLiteralExpression ''{...}'' unnamedProvider)) = None"
    by blast
  from provider_object_literal [of classProvider repoFile initialState "''{...}''"] c
  have 2: "map_option (\<lambda>p. (p_name p, p_type p, p_dependencies p))
        (fst (parseProvider repoFile initialState (ObjectLiteralExpression ''{...}'' classProvider)))
      = Some (''REPO'', Class, [''Database'', ''Logger''])"
    by auto
  from provider_object_literal [of valueProvider repoFile initialState "''{...}''"] v
  have 4: "map_option (\<lambda>p. (p_name p, p_type p, p_dependencies p))
        (fst (parseProvider repoFile initialState (ObjectLiteralExpression ''{...}'' valueProvider)))
      = Some (''LIMIT'', Value, [])"
    by auto
  from h 1 2 4 show ?thesis by simp
qed

text \<open>
  Claim C4. An object-literal provider with a \<^verbatim>\<open>provide\<close> field has type \<^verbatim>\<open>factory\<close>,
  with the dependencies of its \<^verbatim>\<open>inject\<close> list, when a factory-binding field is present
  and no class-binding field, and type \<^verbatim>\<open>value\<close> when only a static-value field is
  present. The extractor attempts this classification
  (\<^verbatim>\<open>if (useClass) ... else if (useFactory) ... else if (useValue !== undefined)\<close>) and
  reaches it where the binding fields are written as identifiers or string literals, as
  for \<open>namedFactoryProvider\<close>. It misses it on \<open>inlineFactoryProvider\<close>, whose
  \<^verbatim>\<open>useFactory\<close> is an inline function: \<^verbatim>\<open>getPropertyValue\<close> returns \<^verbatim>\<open>undefined\<close>
  for an initializer that is neither an identifier nor a string literal, the test
  \<^verbatim>\<open>if (useFactory)\<close> fails as if the field were absent, and the provider keeps the
  initial type \<^verbatim>\<open>class\<close> and no dependencies, its \<^verbatim>\<open>inject\<close> list unread. In the same
  way \<open>literalValueProvider\<close>, whose only binding field is \<^verbatim>\<open>useValue: 42\<close>, gets type
  \<^verbatim>\<open>class\<close> where \<open>valueProvider\<close> gets type \<^verbatim>\<open>value\<close>.
\<close>

theorem inline_factory_provider_typed_class:
  "hasField inlineFactoryProvider ''provide'' \<and> hasField inlineFactoryProvider ''useFactory''
   \<and> \<not> hasField inlineFactoryProvider ''useClass''
   \<and> map_option (\<lambda>p. (p_name p, p_type p, p_dependencies p))
        (fst (parseProvider repoFile initialState
                (ObjectLiteralExpression ''{...}'' inlineFactoryProvider)))
      = Some (''TOKEN'', Class, [])
   \<and> map_option (\<lambda>p. (p_name p, p_type p, p_dependencies p))
        (fst (parseProvider repoFile initialState
                (ObjectLiteralExpression ''{...}'' namedFactoryProvider)))
      = Some (''TOKEN'', Factory, [''Database''])
   \<and> hasField literalValueProvider ''provide'' \<and> hasField literalValueProvider ''useValue''
   \<and> \<not> hasField literalValueProvider ''useClass''
   \<and> \<not> hasField literalValueProvider ''useFactory''
   \<and> map_option (\<lambda>p. (p_name p, p_type p, p_dependencies p))
        (fst (parseProvider repoFile initialState
                (ObjectLiteralExpression ''{...}'' literalValueProvider)))
      = Some (''LIMIT'', Class, [])
   \<and> map_option (\<lambda>p. (p_name p, p_type p, p_dependencies p))
        (fst (parseProvider repoFile initialState
                (ObjectLiteralExpression ''{...}'' valueProvider)))
      = Some (''LIMIT'', Value, [])"
  by (simp add: hasField_def inlineFactoryProvider_def namedFactoryProvider_def
      literalValueProvider_def valueProvider_def field_def stringLiteral_def
      findPropertyAssignment_def parseProvider_def parseProviderObjectLiteral_def
      getPropertyValue_def getArrayPropertyValue_def identifierTexts_def truthy_def Let_def
      isClassInjectable_def findClassDeclaration_def repoFile_def)

text \<open>Every provider record that the extractor builds has its own name as token.\<close>

lemma parseProvider_token_is_name:
  "fst (parseProvider sf st element) = Some p \<Longrightarrow> p_provide p = Some (p_name p)"
  by (cases element)
     (auto simp: parseProvider_def createProviderMetadata_def parseProviderObjectLiteral_def
        Let_def truthy_def split: if_splits option.splits prod.splits)

subsection \<open>The module decorator\<close>

lemma digitChar_inj: "a < 10 \<Longrightarrow> b < 10 \<Longrightarrow> digitChar a = digitChar b \<Longrightarrow> a = b"
proof -
  assume a: "a < 10" and b: "b < 10" and e: "digitChar a = digitChar b"
  have d: "distinct ''0123456789''" by simp
  have l: "length ''0123456789'' = 10" by simp
  from e have "''0123456789'' ! a = ''0123456789'' ! b" by (simp add: digitChar_def)
  with d a b l show ?thesis using nth_eq_iff_index_eq [of "''0123456789''" a b] by metis
qed

lemma length_showNat: "length (showNat n) = 1 \<longleftrightarrow> n < 10"
proof (induction n rule: showNat.induct)
  case (1 n)
  show ?case
  proof (cases "n < 10")
    case True
    then show ?thesis by (subst showNat.simps) simp
  next
    case False
    have "showNat (n div 10) \<noteq> []" by (subst showNat.simps) simp
    with False show ?thesis by (subst showNat.simps) simp
  qed
qed

lemma showNat_inj: "showNat n = showNat m \<Longrightarrow> n = m"
proof (induction n arbitrary: m rule: showNat.induct)
  case (1 n)
  from "1.prems" have len: "n < 10 \<longleftrightarrow> m < 10"
    using length_showNat [of n] length_showNat [of m] by simp
  show ?case
  proof (cases "n < 10")
    case True
    with len have m: "m < 10" by simp
    from "1.prems" True m have "digitChar n = digitChar m"
      by (simp add: showNat.simps [of n] showNat.simps [of m])
    with True m show ?thesis by (rule digitChar_inj)
  next
    case False
    with len have m: "\<not> m < 10" by simp
    from "1.prems" False m
    have "showNat (n div 10) @ [digitChar (n mod 10)] = showNat (m div 10) @ [digitChar (m mod 10)]"
      by (simp add: showNat.simps [of n] showNat.simps [of m])
    then have a: "showNat (n div 10) = showNat (m div 10)"
      and b: "digitChar (n mod 10) = digitChar (m mod 10)" by simp_all
    from "1.IH" [OF False a] have q: "n div 10 = m div 10" .
    from b have r: "n mod 10 = m mod 10" by (intro digitChar_inj) simp_all
    from q r show ?thesis by (metis div_mult_mod_eq)
  qed
qed

lemma createEmpty: "createEmptyModuleMetadata st =
   (emptyModule (uniqueIdCounter st), st\<lparr>uniqueIdCounter := uniqueIdCounter st + 1\<rparr>)"
  by (simp add: createEmptyModuleMetadata_def generateUniqueName_def emptyModule_def)

lemma parseModuleDecorator_no_argument:
  "moduleArgument node = None \<Longrightarrow>
   parseModuleDecorator sf st node = Inr (createEmptyModuleMetadata st)"
  by (auto simp: moduleArgument_def parseModuleDecorator_def
      split: option.splits Node.splits list.splits)

lemma enrich_emptyModule: "enrichWithSecondLevelDependencies st (emptyModule k) = emptyModule k"
  by (simp add: enrichWithSecondLevelDependencies_def emptyModule_def)

text \<open>
  The part of claim C5 that holds. When the class carries no module decorator in call
  form, or the call has no object literal as first argument, \<^verbatim>\<open>parseModuleDecorator\<close>
  yields the empty module record (all lists empty, entity count zero) under the
  placeholder name minted from the parser's counter, as a value and not as an exception.
  A class is the file's qualifying module class only if its module decorator has the
  call form; for such a class whose call has no object literal as first argument,
  \<^verbatim>\<open>parseModule\<close> returns that record too. The counter is advanced, and within one
  parser no other counter value yields the same name (every file has a parser of its
  own, whose counter starts at 1).
\<close>

theorem incomplete_decorator_yields_empty_module:
  assumes "moduleArgument node = None"
  shows "parseModuleDecorator sf st node =
           Inr (emptyModule (uniqueIdCounter st), st\<lparr>uniqueIdCounter := uniqueIdCounter st + 1\<rparr>)
         \<and> (findModuleClass sf = Some node \<longrightarrow>
              (\<exists>st'. parseModule sf st = Inr (Some (emptyModule (uniqueIdCounter st)), st')
                    \<and> uniqueIdCounter st' = uniqueIdCounter st + 1))
         \<and> (\<forall>k. k \<noteq> uniqueIdCounter st \<longrightarrow>
              m_name (emptyModule k) \<noteq> m_name (emptyModule (uniqueIdCounter st)))"
proof -
  have a: "parseModuleDecorator sf st node =
           Inr (emptyModule (uniqueIdCounter st), st\<lparr>uniqueIdCounter := uniqueIdCounter st + 1\<rparr>)"
    using parseModuleDecorator_no_argument [OF assms] by (simp add: createEmpty)
  have n: "m_name (emptyModule k) \<noteq> []" for k by (simp add: emptyModule_def)
  have b: "findModuleClass sf = Some node \<longrightarrow>
              (\<exists>st'. parseModule sf st = Inr (Some (emptyModule (uniqueIdCounter st)), st')
                    \<and> uniqueIdCounter st' = uniqueIdCounter st + 1)"
    by (simp add: parseModule_def a bindE_def n enrich_emptyModule Let_def)
  have c: "\<forall>k. k \<noteq> uniqueIdCounter st \<longrightarrow>
              m_name (emptyModule k) \<noteq> m_name (emptyModule (uniqueIdCounter st))"
    by (auto simp: emptyModule_def dest: showNat_inj)
  from a b c show ?thesis by blast
qed

theorem incomplete_decorator_witness:
  "moduleArgument bareModuleClass = None
   \<and> findModuleClass bareModuleFile = Some bareModuleClass
   \<and> parseModuleDecorator bareModuleFile initialState bareModuleClass =
       Inr (\<lparr>m_name = ''Module_1'', m_filePath = None, m_imports = [], m_exports = [],
             m_providers = [], m_controllers = [], m_entityCount = 0\<rparr>,
            \<lparr>uniqueIdCounter = 2, moduleCache = [], providerCache = []\<rparr>)
   \<and> (\<exists>st'. parseModule bareModuleFile initialState =
         Inr (Some \<lparr>m_name = ''Module_1'', m_filePath = None, m_imports = [], m_exports = [],
                    m_providers = [], m_controllers = [], m_entityCount = 0\<rparr>, st'))
   \<and> m_name (emptyModule 2) \<noteq> m_name (emptyModule 1)"
proof -
  have h: "moduleArgument bareModuleClass = None"
    by (simp add: moduleArgument_def bareModuleClass_def moduleDecorator_def findDecorator_def)
  have f: "findModuleClass bareModuleFile = Some bareModuleClass"
    by (simp add: findModuleClass_def bareModuleFile_def isQualifyingModuleClass_def
        bareModuleClass_def moduleDecorator_def hasDecorator_def findDecorator_def startsWith_def)
  have e: "emptyModule 1 = \<lparr>m_name = ''Module_1'', m_filePath = None, m_imports = [],
       m_exports = [], m_providers = [], m_controllers = [], m_entityCount = 0\<rparr>"
    by (simp add: emptyModule_def showNat.simps digitChar_def)
  have i: "uniqueIdCounter initialState = 1" by (simp add: initialState_def)
  from incomplete_decorator_yields_empty_module [OF h, of bareModuleFile initialState] f e i
  show ?thesis using h by (auto simp: initialState_def)
qed

text \<open>
  The one exception that the statements of the extractor raise, the \<^verbatim>\<open>TypeError\<close> of a
  type guard applied to \<^verbatim>\<open>undefined\<close>, comes out of \<^verbatim>\<open>extractEntityCount\<close>.
\<close>

lemma parseModuleDecorator_raises:
  "parseModuleDecorator sf st node = Inl e \<Longrightarrow>
   \<exists>properties. moduleArgument node = Some properties \<and> extractEntityCount properties = Inl e"
  by (auto simp: parseModuleDecorator_def moduleArgument_def Let_def bindE_def
      split: option.splits Node.splits list.splits prod.splits sum.splits)

text \<open>
  A call of one of the recognized registration forms that has no argument makes the
  loop body raise: the guard is applied to \<^verbatim>\<open>undefined\<close>.
\<close>

lemma registration_without_argument:
  "fullExpression \<in> set forFeatureForms \<or> getText inner = ''TypeOrmModule'' \<Longrightarrow>
   countElement c (CallExpression t (PropertyAccessExpression fullExpression inner n) []) =
     Inl TypeError"
  by (auto simp: countElement_def addWhen_def countArrayArgument_def countEntitiesField_def
      forFeatureForms_def)

text \<open>
  Claim C5. Extraction never throws on structurally incomplete input: where the module
  decorator lacks its call form or its object-literal argument it yields the empty
  module record (shown above). The claim fails on \<open>appModuleFile\<close>, whose module
  decorator is complete and whose imports array holds \<^verbatim>\<open>TypeOrmModule.forFeature()\<close>, a
  registration call that lacks its argument: \<^verbatim>\<open>extractEntityCount\<close> raises a
  \<^verbatim>\<open>TypeError\<close>, and with it \<^verbatim>\<open>parseModuleDecorator\<close> and \<^verbatim>\<open>parseModule\<close>. The same
  call is an import like any other for \<^verbatim>\<open>extractImports\<close>, which names it
  \<^verbatim>\<open>TypeOrmModule\<close>.
\<close>

theorem registration_call_without_argument_raises:
  "findModuleClass appModuleFile = Some appModuleClass
   \<and> moduleArgument appModuleClass =
       Some [importsField [Identifier ''ConfigModule'' ''ConfigModule'', emptyForFeatureCall]]
   \<and> map i_name (fst (extractImports appModuleFile initialState
         [importsField [Identifier ''ConfigModule'' ''ConfigModule'', emptyForFeatureCall]]))
       = [''ConfigModule'', ''TypeOrmModule'']
   \<and> extractEntityCount [importsField [Identifier ''ConfigModule'' ''ConfigModule'', emptyForFeatureCall]]
       = Inl TypeError
   \<and> parseModuleDecorator appModuleFile initialState appModuleClass = Inl TypeError
   \<and> parseModule appModuleFile initialState = Inl TypeError"
proof -
  note defs = appModuleFile_def appModuleClass_def moduleDecorator_def importsField_def
    emptyForFeatureCall_def findDecorator_def arrayField_def findPropertyAssignment_def
  have c: "findModuleClass appModuleFile = Some appModuleClass"
    by (simp add: findModuleClass_def isQualifyingModuleClass_def hasDecorator_def
        startsWith_def defs)
  have a: "moduleArgument appModuleClass =
       Some [importsField [Identifier ''ConfigModule'' ''ConfigModule'', emptyForFeatureCall]]"
    by (simp add: moduleArgument_def defs)
  have i: "map i_name (fst (extractImports appModuleFile initialState
         [importsField [Identifier ''ConfigModule'' ''ConfigModule'', emptyForFeatureCall]]))
       = [''ConfigModule'', ''TypeOrmModule'']"
    by (simp add: extractImports_def importElement_def parseAsyncImport_def
        createImportMetadata_def Let_def defs)
  have e: "extractEntityCount [importsField [Identifier ''ConfigModule'' ''ConfigModule'', emptyForFeatureCall]]
       = Inl TypeError"
    by (simp add: extractEntityCount_def countElement_def addWhen_def countArrayArgument_def
        defs)
  have d: "parseModuleDecorator appModuleFile initialState appModuleClass = Inl TypeError"
    using e by (simp add: parseModuleDecorator_def Let_def defs split: prod.splits)
  have p: "parseModule appModuleFile initialState = Inl TypeError"
    by (simp add: parseModule_def c d)
  from c a i e d p show ?thesis by simp
qed

subsection \<open>Imports\<close>

text \<open>
  Claim C8, as stated: an element of the imports array that is a call expression yields
  an import with \<^verbatim>\<open>isAsync\<close> true. It fails on \<^verbatim>\<open>forwardRef(UsersModule)\<close>: the callee is
  \<^verbatim>\<open>forwardRef\<close> and the argument is not an arrow function, so \<^verbatim>\<open>parseAsyncImport\<close>
  returns the placeholder of \<^verbatim>\<open>createUnknownImport\<close>, whose \<^verbatim>\<open>isAsync\<close> is false.
\<close>

theorem is_async_counterexample:
  "isCallExpression bareForwardRefCall
   \<and> i_isAsync (fst (importElement repoFile initialState bareForwardRefCall)) = Some False
   \<and> i_name (fst (importElement repoFile initialState bareForwardRefCall)) = ''UnknownModule_1''"
  by (simp add: isCallExpression_def bareForwardRefCall_def importElement_def parseAsyncImport_def
      createUnknownImport_def initialState_def showNat.simps digitChar_def)

text \<open>
  Claim C8, amended. For every element of the imports array, \<^verbatim>\<open>isAsync\<close> is true
  exactly when the element is a call expression for which the extractor finds a module
  name (\<open>namedCall\<close>): the callee is a property access, or an identifier other than
  \<^verbatim>\<open>forwardRef\<close>, or the call is \<^verbatim>\<open>forwardRef\<close> applied to an arrow function whose body is
  an identifier. A bare identifier has \<^verbatim>\<open>isAsync\<close> false and an empty dependencies list
  before enrichment; every other call expression yields the placeholder import
  \<^verbatim>\<open>UnknownModule_<n>\<close>, whose \<^verbatim>\<open>isAsync\<close> is false.
\<close>

theorem is_async_of_import:
  "i_isAsync (fst (importElement sf st element)) = Some (namedCall element)
   \<and> (\<forall>t s. element = Identifier t s \<longrightarrow>
          i_isAsync (fst (importElement sf st element)) = Some False
          \<and> i_dependencies (fst (importElement sf st element)) = Some [])
   \<and> (isCallExpression element \<and> \<not> namedCall element \<longrightarrow>
          importElement sf st element = createUnknownImport st)"
proof -
  have a: "i_isAsync (fst (importElement sf st element)) = Some (namedCall element)"
    by (auto simp: importElement_def parseAsyncImport_def createUnknownImport_def
        createImportMetadata_def namedCall_def split: Node.splits list.splits)
  have b: "\<forall>t s. element = Identifier t s \<longrightarrow>
          i_isAsync (fst (importElement sf st element)) = Some False
          \<and> i_dependencies (fst (importElement sf st element)) = Some []"
    by (simp add: importElement_def createImportMetadata_def)
  have c: "isCallExpression element \<and> \<not> namedCall element \<longrightarrow>
          importElement sf st element = createUnknownImport st"
    by (auto simp: importElement_def parseAsyncImport_def isCallExpression_def namedCall_def
        split: Node.splits list.splits)
  from a b c show ?thesis by blast
qed

theorem is_async_of_import_witness:
  "namedCall forwardRefCall \<and> namedCall registerCall \<and> \<not> namedCall bareForwardRefCall
   \<and> isCallExpression bareForwardRefCall
   \<and> i_isAsync (fst (importElement repoFile initialState forwardRefCall)) = Some True
   \<and> i_isAsync (fst (importElement repoFile initialState registerCall)) = Some True
   \<and> i_isAsync (fst (importElement repoFile initialState (Identifier ''UsersModule'' ''UsersModule''))) = Some False
   \<and> i_dependencies (fst (importElement repoFile initialState (Identifier ''UsersModule'' ''UsersModule''))) = Some []
   \<and> importElement repoFile initialState bareForwardRefCall = createUnknownImport initialState"
proof -
  have n: "namedCall forwardRefCall" "namedCall registerCall" "\<not> namedCall bareForwardRefCall"
    "isCallExpression bareForwardRefCall" "\<not> namedCall (Identifier ''UsersModule'' ''UsersModule'')"
    by (simp_all add: namedCall_def forwardRefCall_def registerCall_def bareForwardRefCall_def
        isCallExpression_def)
  from is_async_of_import [of repoFile initialState forwardRefCall]
       is_async_of_import [of repoFile initialState registerCall]
       is_async_of_import [of repoFile initialState bareForwardRefCall]
       is_async_of_import [of repoFile initialState "Identifier ''UsersModule'' ''UsersModule''"] n
  show ?thesis by simp
qed

subsection \<open>Entity count\<close>

lemma addWhen_shift:
  "addWhen b r (c + k) = bindE (addWhen b r c) (\<lambda>n. Inr (n + k))"
  by (cases r) (simp_all add: addWhen_def bindE_def)

lemma countElement_shift:
  "countElement (c + k) e = bindE (countElement c e) (\<lambda>n. Inr (n + k))"
proof (cases e)
  case (CallExpression t expression arguments)
  show ?thesis
  proof (cases expression)
    case (PropertyAccessExpression fullExpression inner n)
    show ?thesis
      unfolding CallExpression PropertyAccessExpression countElement_def
      by (simp add: addWhen_shift bindE_assoc)
  qed (simp_all add: CallExpression countElement_def)
qed (simp_all add: countElement_def)

lemma countLoop_shift:
  "countLoop (c + k) es = bindE (countLoop c es) (\<lambda>n. Inr (n + k))"
proof (induction es arbitrary: c)
  case Nil
  then show ?case by simp
next
  case (Cons e es)
  show ?case
  proof (cases "countElement c e")
    case (Inl err)
    then show ?thesis by (simp add: countElement_shift)
  next
    case (Inr c')
    then show ?thesis by (simp add: countElement_shift Cons.IH)
  qed
qed

lemma countLoop_append:
  "countLoop c (xs @ ys) = bindE (countLoop c xs) (\<lambda>c'. countLoop c' ys)"
proof (induction xs arbitrary: c)
  case Nil
  then show ?case by simp
next
  case (Cons x xs)
  then show ?case by (cases "countElement c x") simp_all
qed

lemma countLoop_insert:
  assumes "\<And>c. countElement c e = Inr (c + k)"
  shows "countLoop 0 (xs @ e # ys) = bindE (countLoop 0 (xs @ ys)) (\<lambda>n. Inr (n + k))"
proof (cases "countLoop 0 xs")
  case (Inl err)
  then show ?thesis by (simp add: countLoop_append)
next
  case (Inr c)
  then show ?thesis by (simp add: countLoop_append assms countLoop_shift)
qed

lemma countElement_registers:
  "registersEntities k e \<Longrightarrow> countElement c e = Inr (c + k)"
  by (auto simp: registersEntities_def countElement_def forFeatureForms_def addWhen_def
      countArrayArgument_def countEntitiesField_def
      split: Node.splits list.splits)

text \<open>
  The part of claim C7 that holds. Take a module whose imports array holds, somewhere, a
  call expression whose callee text is one of the three \<^verbatim>\<open>forFeature\<close> forms and whose
  first argument is an array literal of \<open>k\<close> elements: its entity count is larger by
  exactly \<open>k\<close> than the count of the same array without that element.
\<close>

lemma registration_adds_length:
  assumes "arrayField properties ''imports'' = Some (xs @ element # ys)"
    and "arrayField properties' ''imports'' = Some (xs @ ys)"
    and "extractEntityCount properties' = Inr n"
    and "registersEntities k element"
  shows "extractEntityCount properties = Inr (n + k)"
proof -
  from assms(2,3) have "countLoop 0 (xs @ ys) = Inr n"
    by (simp add: extractEntityCount_def)
  with countLoop_insert [of element k xs ys] countElement_registers [OF assms(4)] assms(1)
  show ?thesis by (simp add: extractEntityCount_def)
qed

text \<open>
  A call that contributes nothing: its callee is not a property access, or its callee
  text is none of the \<^verbatim>\<open>forFeature\<close> forms and the object of the property access is
  not \<^verbatim>\<open>TypeOrmModule\<close>.
\<close>

lemma countElement_other_callee:
  "\<forall>fullExpression inner n. expression = PropertyAccessExpression fullExpression inner n \<longrightarrow>
     fullExpression \<notin> set forFeatureForms \<and> getText inner \<noteq> ''TypeOrmModule'' \<Longrightarrow>
   countElement c (CallExpression t expression arguments) = Inr c"
  by (auto simp: countElement_def forFeatureForms_def addWhen_def split: Node.splits)

text \<open>
  The test of the second block, \<^verbatim>\<open>element.expression.expression.getText() ===
  'TypeOrmModule'\<close>, reads the object of the property access and not the method: a
  call of any method of \<^verbatim>\<open>TypeOrmModule\<close> whose first argument is an object literal with
  an array literal as \<^verbatim>\<open>entities\<close> field contributes the length of that array.
\<close>

lemma countElement_orm_root:
  "getText inner = ''TypeOrmModule'' \<Longrightarrow> arrayField config ''entities'' = Some entities \<Longrightarrow>
   countElement c (CallExpression t (PropertyAccessExpression fullExpression inner n)
                     (ObjectLiteralExpression t' config # rest)) = Inr (c + length entities)"
  by (simp add: countElement_def addWhen_def countArrayArgument_def countEntitiesField_def)

text \<open>
  Claim C7. A call expression in the imports array that matches none of the recognized
  forms contributes exactly 0 to the entity count. The extractor compares the callee
  text with the three \<^verbatim>\<open>forFeature\<close> forms, but for the form that its comment names
  \<^verbatim>\<open>TypeOrmModule.forRoot({ entities: [...] })\<close> it compares the object of the callee
  with \<^verbatim>\<open>TypeOrmModule\<close> and never the method. The claim fails on \<open>dbModuleFile\<close>: the
  callee text of \<^verbatim>\<open>TypeOrmModule.forRootAsync({ entities: [User, Role] })\<close> is none of
  the recognized forms, and the entity count of the module is 2 with that element and 0
  without it. The other half of the claim holds (\<open>registration_adds_length\<close>):
  \<^verbatim>\<open>TypeOrmModule.forFeature([User, Role, Team])\<close> adds 3.
\<close>

theorem unrecognized_call_counted:
  "matchesNoRecognizedForm forRootAsyncCall
   \<and> extractEntityCount [importsField [Identifier ''ConfigModule'' ''ConfigModule'']] = Inr 0
   \<and> extractEntityCount
        [importsField [Identifier ''ConfigModule'' ''ConfigModule'', forRootAsyncCall]] = Inr 2
   \<and> map_sum id (\<lambda>r. map_option m_entityCount (fst r)) (parseModule plainModuleFile initialState)
       = Inr (Some 0)
   \<and> map_sum id (\<lambda>r. map_option m_entityCount (fst r)) (parseModule dbModuleFile initialState)
       = Inr (Some 2)
   \<and> registersEntities 3 forFeatureCall
   \<and> extractEntityCount
        [importsField [Identifier ''ConfigModule'' ''ConfigModule'', forFeatureCall]] = Inr 3"
proof -
  have m: "matchesNoRecognizedForm forRootAsyncCall"
    by (simp add: matchesNoRecognizedForm_def recognizedForms_def forFeatureForms_def
        forRootAsyncCall_def)
  have r: "registersEntities 3 forFeatureCall"
    by (simp add: registersEntities_def forFeatureCall_def forFeatureForms_def)
  note count_defs = extractEntityCount_def arrayField_def importsField_def field_def
    findPropertyAssignment_def countElement_def addWhen_def countArrayArgument_def
    countEntitiesField_def
  have c: "extractEntityCount [importsField [Identifier ''ConfigModule'' ''ConfigModule'']] = Inr 0"
    "extractEntityCount
        [importsField [Identifier ''ConfigModule'' ''ConfigModule'', forRootAsyncCall]] = Inr 2"
    "extractEntityCount
        [importsField [Identifier ''ConfigModule'' ''ConfigModule'', forFeatureCall]] = Inr 3"
    by (simp_all add: count_defs forRootAsyncCall_def forFeatureCall_def)
  have p: "map_sum id (\<lambda>r. map_option m_entityCount (fst r)) (parseModule plainModuleFile initialState)
       = Inr (Some 0)"
    "map_sum id (\<lambda>r. map_option m_entityCount (fst r)) (parseModule dbModuleFile initialState)
       = Inr (Some 2)"
    by (simp_all add: plainModuleFile_def dbModuleFile_def forRootAsyncCall_def file_defs
        parse_defs enrichWithSecondLevelDependencies_def)
  from m r c p show ?thesis by simp
qed

subsection \<open>The provider dependency tree\<close>

lemma set_uniq: "set (uniq xs) = set xs"
  by (induction xs rule: uniq.induct) auto

lemma distinct_uniq: "distinct (uniq xs)"
  by (induction xs rule: uniq.induct) (auto simp: set_uniq)

text \<open>
  Claim C9. The recursion of \<^verbatim>\<open>getProviderDependencyTree\<close> is well-founded: the
  relation between the arguments of a recursive call and those of the call that makes
  it admits no infinite descent, and every argument (every provider cache, which is a
  finite \<^verbatim>\<open>Map\<close>, every starting name and every set of visited names) lies in the
  domain on which the recursion terminates, whether or not the dependencies recorded
  in the cache are cyclic; and a call on a name that is already in \<^verbatim>\<open>visited\<close>
  returns the empty list at once and leaves \<^verbatim>\<open>visited\<close> as it is.
\<close>

theorem dependency_tree_terminates:
  "wfp getProviderDependencyTree_nestedDeps_rel
   \<and> getProviderDependencyTree_nestedDeps_dom (Inl (cache, providerName, visited))
   \<and> (providerName \<in> visited \<longrightarrow>
        getProviderDependencyTree cache providerName visited = ([], visited))"
proof -
  have "wfp getProviderDependencyTree_nestedDeps_rel"
    using dependencyTree_total by (auto intro: accp_wfpI)
  moreover have "getProviderDependencyTree_nestedDeps_dom (Inl (cache, providerName, visited))"
    using dependencyTree_total by simp
  moreover have "providerName \<in> visited \<longrightarrow>
        getProviderDependencyTree cache providerName visited = ([], visited)"
    by (simp add: getProviderDependencyTree.simps)
  ultimately show ?thesis by blast
qed

theorem dependency_tree_terminates_witness:
  "''A'' \<in> {''A'', ''B''}
   \<and> getProviderDependencyTree cyclicCache ''A'' {''A'', ''B''} = ([], {''A'', ''B''})
   \<and> getProviderDependencyTree cyclicCache ''A'' {} = ([''B'', ''C'', ''A''], {''A'', ''B'', ''C''})"
proof -
  have v: "''A'' \<in> {''A'', ''B''}" by simp
  from dependency_tree_terminates [of cyclicCache "''A''" "{''A'', ''B''}"] v
  have "getProviderDependencyTree cyclicCache ''A'' {''A'', ''B''} = ([], {''A'', ''B''})"
    by blast
  moreover have "getProviderDependencyTree cyclicCache ''A'' {} =
      ([''B'', ''C'', ''A''], {''A'', ''B'', ''C''})"
    by (simp add: getProviderDependencyTree.simps cyclicCache_def mkProvider_def insert_commute)
  ultimately show ?thesis using v by simp
qed

text \<open>
  Claim C10. The list that \<^verbatim>\<open>getProviderDependencyTree\<close> returns holds no name twice,
  for every provider cache, starting name and visited set; hence after the enrichment
  of a module every provider's dependencies list is free of duplicates.
\<close>

theorem dependency_tree_distinct:
  "distinct (fst (getProviderDependencyTree cache providerName visited))
   \<and> list_all (\<lambda>provider. distinct (p_dependencies provider))
        (m_providers (enrichWithSecondLevelDependencies st m))"
proof -
  have d: "distinct (fst (getProviderDependencyTree c n v))" for c n v
    by (subst getProviderDependencyTree.simps)
       (simp add: Let_def distinct_uniq split: option.splits prod.splits)
  then show ?thesis
    by (simp add: enrichWithSecondLevelDependencies_def Let_def list_all_iff)
qed

theorem dependency_tree_distinct_witness:
  "fst (getProviderDependencyTree diamondCache ''A'' {}) = [''B'', ''C'', ''D'']
   \<and> map p_dependencies
        (m_providers (enrichWithSecondLevelDependencies
           (initialState\<lparr>providerCache := diamondCache\<rparr>) diamondModule))
      = [[''B'', ''C'', ''D''], []]
   \<and> distinct [''B'', ''C'', ''D'']"
proof -
  have e: "fst (getProviderDependencyTree diamondCache ''A'' {}) = [''B'', ''C'', ''D'']"
    by (simp add: getProviderDependencyTree.simps diamondCache_def mkProvider_def)
  have f: "fst (getProviderDependencyTree diamondCache ''D'' {}) = []"
    by (simp add: getProviderDependencyTree.simps diamondCache_def mkProvider_def)
  from dependency_tree_distinct [of diamondCache "''A''" "{}"] e
  have "distinct [''B'', ''C'', ''D'']" by simp
  with e f show ?thesis
    by (simp add: enrichWithSecondLevelDependencies_def diamondModule_def initialState_def
        mkProvider_def Let_def)
qed

section \<open>Mappings built by the analyzer\<close>

text \<open>
  Every mapping that the analyzer builds from parsed files satisfies \<open>tokensAreNames\<close>:
  the extractor gives every provider its own name as token, the enrichment rewrites
  dependencies only, and the registration sets the file path only.
\<close>

lemma mapState_parseProvider_tokens:
  "Some p \<in> set (fst (mapState (parseProvider sf) st es)) \<Longrightarrow> p_provide p = Some (p_name p)"
proof (induction es arbitrary: st)
  case Nil
  then show ?case by simp
next
  case (Cons e es)
  obtain r st1 where r: "parseProvider sf st e = (r, st1)" by (cases "parseProvider sf st e")
  obtain rs st2 where rs: "mapState (parseProvider sf) st1 es = (rs, st2)"
    by (cases "mapState (parseProvider sf) st1 es")
  from Cons.prems r rs have "Some p = r \<or> Some p \<in> set rs" by simp
  then show ?case
  proof
    assume "Some p = r"
    with r have "fst (parseProvider sf st e) = Some p" by simp
    then show ?thesis by (rule parseProvider_token_is_name)
  next
    assume "Some p \<in> set rs"
    with rs have "Some p \<in> set (fst (mapState (parseProvider sf) st1 es))" by simp
    then show ?thesis by (rule Cons.IH)
  qed
qed

lemma set_dropNull: "set (dropNull rs) = {x. Some x \<in> set rs}"
  by (induction rs) (auto simp: dropNull_def split: option.splits)

lemma extractProviders_tokens:
  "p_provide p = Some (p_name p)" if "p \<in> set (fst (extractProviders sf st properties))"
proof (cases "arrayField properties ''providers''")
  case None
  then show ?thesis using that by (simp add: extractProviders_def)
next
  case (Some elements)
  obtain results st1 where r: "mapState (parseProvider sf) st elements = (results, st1)"
    by (cases "mapState (parseProvider sf) st elements")
  from that Some r have "Some p \<in> set results"
    by (simp add: extractProviders_def set_dropNull)
  with r have "Some p \<in> set (fst (mapState (parseProvider sf) st elements))" by simp
  then show ?thesis by (rule mapState_parseProvider_tokens)
qed

lemma parseModuleDecorator_tokens:
  assumes "parseModuleDecorator sf st node = Inr (md, st')" "p \<in> set (m_providers md)"
  shows "p_provide p = Some (p_name p)"
proof (cases "moduleArgument node")
  case None
  from parseModuleDecorator_no_argument [OF None, of sf st] assms show ?thesis
    by (simp add: createEmpty emptyModule_def)
next
  case (Some properties)
  obtain n st1 where n: "(case c_name node of Some text \<Rightarrow> (text, st)
      | None \<Rightarrow> generateUniqueName ''Module'' st) = (n, st1)"
    by (cases "case c_name node of Some text \<Rightarrow> (text, st) | None \<Rightarrow> generateUniqueName ''Module'' st")
  obtain imps st2 where i: "extractImports sf st1 properties = (imps, st2)"
    by (cases "extractImports sf st1 properties")
  obtain providers st3 where ps: "extractProviders sf st2 properties = (providers, st3)"
    by (cases "extractProviders sf st2 properties")
  from Some assms(1) n i ps have "m_providers md = providers"
    by (auto simp: moduleArgument_def parseModuleDecorator_def Let_def bindE_def
        split: option.splits Node.splits list.splits sum.splits)
  with assms(2) ps have "p \<in> set (fst (extractProviders sf st2 properties))" by simp
  then show ?thesis by (rule extractProviders_tokens)
qed

lemma parseModule_tokens:
  assumes "parseModule sf st = Inr (Some md, st')" "p \<in> set (m_providers md)"
  shows "p_provide p = Some (p_name p)"
proof -
  from assms(1) obtain cls md0 st1 where
    d: "parseModuleDecorator sf st cls = Inr (md0, st1)"
    and e: "md = enrichWithSecondLevelDependencies
                   (st1\<lparr>moduleCache := AList.update (m_name md0) md0 (moduleCache st1)\<rparr>) md0"
    by (auto simp: parseModule_def bindE_def Let_def
        split: option.splits sum.splits prod.splits if_splits)
  from assms(2) e obtain p0 where p0: "p0 \<in> set (m_providers md0)"
    "p_name p = p_name p0" "p_provide p = p_provide p0"
    by (auto simp: enrichWithSecondLevelDependencies_def Let_def)
  from parseModuleDecorator_tokens [OF d p0(1)] p0(2,3) show ?thesis by simp
qed

lemma set_AList_update: "set (AList.update k v al) \<subseteq> insert (k, v) (set al)"
  by (induction al) auto

lemma tokensAreNames_registerModule:
  assumes "tokensAreNames g" "parseModule sf st = Inr (parsed, st')"
  shows "tokensAreNames (registerModule g path parsed)"
proof (cases parsed)
  case None
  with assms(1) show ?thesis by (simp add: registerModule_def)
next
  case (Some md)
  have md: "\<forall>p \<in> set (m_providers md). p_provide p = None \<or> p_provide p = Some (p_name p)"
    using parseModule_tokens [of sf st md st'] assms(2) Some by simp
  show ?thesis
  proof (cases "m_name md = []")
    case True
    with assms(1) Some show ?thesis by (simp add: registerModule_def)
  next
    case False
    have "set (modValues (AList.update (m_name md) (md\<lparr>m_filePath := Some path\<rparr>) g))
          \<subseteq> insert (md\<lparr>m_filePath := Some path\<rparr>) (set (modValues g))"
      using set_AList_update [of "m_name md" "md\<lparr>m_filePath := Some path\<rparr>" g]
      by (auto simp: modValues_def)
    moreover have "\<forall>p \<in> set (m_providers (md\<lparr>m_filePath := Some path\<rparr>)).
        p_provide p = None \<or> p_provide p = Some (p_name p)"
      using md by simp
    ultimately have "\<forall>m \<in> set (modValues (AList.update (m_name md)
        (md\<lparr>m_filePath := Some path\<rparr>) g)). \<forall>p \<in> set (m_providers m).
        p_provide p = None \<or> p_provide p = Some (p_name p)"
      using assms(1) unfolding tokensAreNames_def by blast
    with False Some show ?thesis
      by (simp add: tokensAreNames_def registerModule_def)
  qed
qed

lemma analysed_tokensAreNames: "analysed g \<Longrightarrow> tokensAreNames g"
proof (induction rule: analysed.induct)
  case analysed_empty
  then show ?case by (simp add: tokensAreNames_def modValues_def)
next
  case (analysed_file g sf parsed st')
  then show ?case by (intro tokensAreNames_registerModule)
qed

subsection \<open>A project of two files\<close>

lemma parseModule_usersModuleFile:
  "\<exists>st'. parseModule usersModuleFile initialState = Inr (Some usersModule, st')"
  by (simp add: usersModuleFile_def usersModule_def forwardRefAuthCall_def file_defs parse_defs)

lemma parseModule_authModuleFile:
  "\<exists>st'. parseModule authModuleFile initialState = Inr (Some authModule, st')"
  by (simp add: authModuleFile_def authModule_def file_defs parse_defs)

lemma parseModule_lazyAuthModuleFile:
  "\<exists>st'. parseModule lazyAuthModuleFile initialState = Inr (Some lazyAuthModule, st')"
  by (simp add: lazyAuthModuleFile_def lazyAuthModule_def blockForwardRefCall_def returnBlock_def
      file_defs parse_defs showNat.simps digitChar_def)

lemma projectGraph_analysed: "analysed projectGraph"
proof -
  obtain st1 where 1: "parseModule usersModuleFile initialState = Inr (Some usersModule, st1)"
    using parseModule_usersModuleFile by blast
  obtain st2 where 2: "parseModule authModuleFile initialState = Inr (Some authModule, st2)"
    using parseModule_authModuleFile by blast
  from analysed_file [OF analysed_empty 1]
  have "analysed [(''UsersModule'', usersModule)]"
    by (simp add: registerModule_def usersModuleFile_def usersModule_def)
  from analysed_file [OF this 2] show ?thesis
    by (simp add: registerModule_def projectGraph_def authModuleFile_def authModule_def
        usersModule_def)
qed

lemma lazyGraph_analysed: "analysed [(''AuthModule'', lazyAuthModule)]"
proof -
  obtain st1 where 1: "parseModule lazyAuthModuleFile initialState = Inr (Some lazyAuthModule, st1)"
    using parseModule_lazyAuthModuleFile by blast
  from analysed_file [OF analysed_empty 1] show ?thesis
    by (simp add: registerModule_def lazyAuthModuleFile_def lazyAuthModule_def)
qed

text \<open>
  Claim C1. Running the linker a second time over a mapping that it has already linked
  returns the identical mapping: every import's path and module snapshot and every
  provider's dependencies list are as the first pass left them. The linker is a private
  method that runs on the analyzer's own mapping, which holds what the extractor
  returned for the module files of the project (\<open>analysed\<close>); in every such mapping each
  provider's token is its own name (\<open>analysed_tokensAreNames\<close>).
\<close>

theorem relinking_stable:
  assumes "analysed g"
  shows "resolveModuleDependencies (resolveModuleDependencies g) = resolveModuleDependencies g"
  using assms by (intro relinking_stable_tokens analysed_tokensAreNames)

theorem relinking_stable_witness:
  "analysed projectGraph
   \<and> resolveModuleDependencies (resolveModuleDependencies projectGraph)
     = resolveModuleDependencies projectGraph
   \<and> map (\<lambda>m. map i_path (m_imports m)) (modValues (resolveModuleDependencies projectGraph))
     = [[Some ''src/auth.module.ts''], [Some ''src/users.module.ts'']]
   \<and> map (\<lambda>m. map p_dependencies (m_providers m))
        (modValues (resolveModuleDependencies projectGraph))
     = [[[''Database'']], [[''UsersService'']]]"
proof -
  have "map (\<lambda>m. map i_path (m_imports m)) (modValues (resolveModuleDependencies projectGraph))
     = [[Some ''src/auth.module.ts''], [Some ''src/users.module.ts'']]"
    by (simp add: resolveModuleDependencies_def projectGraph_def usersModule_def authModule_def
        modValues_def Let_def linkImport_def)
  moreover have "map (\<lambda>m. map p_dependencies (m_providers m))
        (modValues (resolveModuleDependencies projectGraph))
     = [[[''Database'']], [[''UsersService'']]]"
    by (simp add: resolveModuleDependencies_def projectGraph_def usersModule_def authModule_def
        modValues_def Let_def resolveDep_def)
  ultimately show ?thesis
    using relinking_stable [OF projectGraph_analysed] projectGraph_analysed by simp
qed

section \<open>Diagram rendering\<close>

lemma importEdge_linkImport: "importEdge k (linkImport ms imp) = importEdge k imp"
  by (simp add: importEdge_def edgeStyle_def linkImport_def split: option.splits)

lemma importEdge_forward:
  "i_isForwardReference imp = Some True \<Longrightarrow> importEdge k imp = dashedEdge k (i_name imp)"
  by (simp add: importEdge_def edgeStyle_def dashedEdge_def forwardRefStyle_def)

lemma importEdge_plain:
  "i_isForwardReference imp \<noteq> Some True \<Longrightarrow> importEdge k imp = plainEdge k (i_name imp)"
  by (simp add: importEdge_def edgeStyle_def plainEdge_def plainStyle_def)

lemma dashed_not_plain: "dashedEdge k c \<noteq> plainEdge k c"
  by (simp add: dashedEdge_def plainEdge_def dquote_def)

lemma joinLines_Cons: "ls \<noteq> [] \<Longrightarrow> joinLines (l # ls) = l @ [CHR 0x0A] @ joinLines ls"
  by (cases ls) simp_all

lemma joinLines_append:
  "xs \<noteq> [] \<Longrightarrow> ys \<noteq> [] \<Longrightarrow> joinLines (xs @ ys) = joinLines xs @ [CHR 0x0A] @ joinLines ys"
  by (induction xs rule: joinLines.induct) (simp_all add: joinLines_Cons)

lemma joinLines_line:
  "xs \<noteq> [] \<Longrightarrow> ys \<noteq> [] \<Longrightarrow>
   joinLines (xs @ l # ys) = joinLines xs @ [CHR 0x0A] @ l @ [CHR 0x0A] @ joinLines ys"
  using joinLines_append [of xs "l # ys"] by (simp add: joinLines_Cons)

text \<open>
  Every import of every module has its edge statement in the text that \<^verbatim>\<open>generate\<close>
  returns, on a line of its own: the array \<^verbatim>\<open>lines\<close> starts with the header and ends with
  the closing brace, so the statement stands between two separators.
\<close>

lemma import_edge_emitted:
  assumes "(k, m) \<in> set h" "imp \<in> set (m_imports m)"
  shows "\<exists>pre post. generate h = pre @ [CHR 0x0A] @ importEdge k imp @ [CHR 0x0A] @ post"
proof -
  let ?edges = "concat (map (\<lambda>e. map (importEdge (fst e)) (m_imports (snd e))) h)"
  from assms have "importEdge k imp \<in> set ?edges" by force
  from split_list [OF this]
  obtain before after where split: "?edges = before @ importEdge k imp # after"
    by blast
  let ?xs = "[''digraph {'', ''  rankdir=LR;'',
      ''  node [shape=box, style=filled, fillcolor=lightgray];'', ''''] @
     map nodeLine h @ [''''] @ before"
  let ?ys = "after @
     concat (map (\<lambda>e. concat (map (\<lambda>provider. map (providerEdge provider)
                                                   (p_dependencies provider))
                                  (m_providers (snd e)))) h) @ [''}'']"
  have gl: "generateLines h = ?xs @ importEdge k imp # ?ys"
    by (simp add: generateLines_def split)
  have nx: "?xs \<noteq> []" and ny: "?ys \<noteq> []" by simp_all
  have "generate h = joinLines (?xs @ importEdge k imp # ?ys)"
    by (simp only: generate_def gl)
  also have "\<dots> = joinLines ?xs @ [CHR 0x0A] @ importEdge k imp @ [CHR 0x0A] @ joinLines ?ys"
    by (rule joinLines_line [OF nx ny])
  finally have "generate h =
      joinLines ?xs @ [CHR 0x0A] @ importEdge k imp @ [CHR 0x0A] @ joinLines ?ys" .
  then show ?thesis by blast
qed

lemma linked_import_emitted:
  assumes "(k, m) \<in> set g" "imp \<in> set (m_imports m)"
  shows "\<exists>pre post. generate (resolveModuleDependencies g) =
           pre @ [CHR 0x0A] @ importEdge k imp @ [CHR 0x0A] @ post"
proof -
  let ?vs = "modValues g"
  from assms(1) have "(k, linkModule ?vs m) \<in> set (resolveModuleDependencies g)"
    by (force simp: resolveModuleDependencies_closed linkEntry_def)
  moreover from assms(2) have "linkImport ?vs imp \<in> set (m_imports (linkModule ?vs m))"
    by (simp add: linkModule_def)
  ultimately have "\<exists>pre post. generate (resolveModuleDependencies g) =
      pre @ [CHR 0x0A] @ importEdge k (linkImport ?vs imp) @ [CHR 0x0A] @ post"
    by (rule import_edge_emitted)
  then show ?thesis by (simp add: importEdge_linkImport)
qed

lemma arrowForwardReference_import:
  assumes "arrowForwardReference c element"
  shows "i_name (fst (importElement sf st element)) = c"
    and "i_isForwardReference (fst (importElement sf st element)) = Some True"
  using assms
  by (auto simp: arrowForwardReference_def identifierNamed_def importElement_def
      parseAsyncImport_def split: Node.splits list.splits)

lemma other_import_not_forward:
  assumes "\<forall>c. \<not> arrowForwardReference c element"
  shows "i_isForwardReference (fst (importElement sf st element)) = None"
  using assms
  by (auto simp: arrowForwardReference_def identifierNamed_def importElement_def
      parseAsyncImport_def createImportMetadata_def createUnknownImport_def
      split: Node.splits list.splits)

lemma returned_identifier_placeholder:
  assumes "forwardReferenceTo c element" "\<not> arrowForwardReference c element"
  shows "importElement sf st element = createUnknownImport st"
  using assms
  by (auto simp: forwardReferenceTo_def returnsIdentifier_def returnsOnly_def
      arrowForwardReference_def identifierNamed_def importElement_def parseAsyncImport_def
      split: Node.splits list.splits option.splits)

text \<open>
  Claim C6, as stated: an element of the imports array that is a call of the
  forward-reference wrapper on an inline function returning the bare identifier \<open>c\<close>
  yields an import named \<open>c\<close> with \<^verbatim>\<open>isForwardReference\<close> true, drawn in the dashed
  style. It fails on \<^verbatim>\<open>forwardRef(() => { return UsersModule; })\<close> and on
  \<^verbatim>\<open>forwardRef(function () { return UsersModule; })\<close>: \<^verbatim>\<open>parseAsyncImport\<close> accepts an
  arrow function whose body is an identifier and returns the placeholder of
  \<^verbatim>\<open>createUnknownImport\<close> for every other argument. For \<open>lazyAuthModuleFile\<close> the
  extractor returns a module whose import is named \<^verbatim>\<open>UnknownModule_1\<close> and has no
  \<^verbatim>\<open>isForwardReference\<close>, and the diagram of the linked mapping holds one import edge, in
  the plain style.
\<close>

theorem forward_reference_counterexample:
  "forwardReferenceTo ''UsersModule'' blockForwardRefCall
   \<and> forwardReferenceTo ''UsersModule'' functionForwardRefCall
   \<and> fst (importElement lazyAuthModuleFile initialState blockForwardRefCall) =
       \<lparr>i_name = ''UnknownModule_1'', i_path = None, i_isAsync = Some False,
        i_dependencies = Some [], i_isForwardReference = None, i_module = None\<rparr>
   \<and> fst (importElement lazyAuthModuleFile initialState functionForwardRefCall) =
       \<lparr>i_name = ''UnknownModule_1'', i_path = None, i_isAsync = Some False,
        i_dependencies = Some [], i_isForwardReference = None, i_module = None\<rparr>
   \<and> map_sum id fst (parseModule lazyAuthModuleFile initialState) = Inr (Some lazyAuthModule)
   \<and> generateLines (resolveModuleDependencies [(''AuthModule'', lazyAuthModule)]) =
       [''digraph {'', ''  rankdir=LR;'',
        ''  node [shape=box, style=filled, fillcolor=lightgray];'', '''',
        nodeLine (''AuthModule'', lazyAuthModule), '''',
        plainEdge ''AuthModule'' ''UnknownModule_1'', ''}'']
   \<and> dashedEdge ''AuthModule'' ''UsersModule''
       \<notin> set (generateLines (resolveModuleDependencies [(''AuthModule'', lazyAuthModule)]))"
proof -
  have a: "forwardReferenceTo ''UsersModule'' blockForwardRefCall"
    "forwardReferenceTo ''UsersModule'' functionForwardRefCall"
    by (simp_all add: forwardReferenceTo_def returnsIdentifier_def returnsOnly_def
        identifierNamed_def blockForwardRefCall_def functionForwardRefCall_def returnBlock_def)
  have b: "fst (importElement lazyAuthModuleFile initialState blockForwardRefCall) =
       \<lparr>i_name = ''UnknownModule_1'', i_path = None, i_isAsync = Some False,
        i_dependencies = Some [], i_isForwardReference = None, i_module = None\<rparr>"
    "fst (importElement lazyAuthModuleFile initialState functionForwardRefCall) =
       \<lparr>i_name = ''UnknownModule_1'', i_path = None, i_isAsync = Some False,
        i_dependencies = Some [], i_isForwardReference = None, i_module = None\<rparr>"
    by (simp_all add: importElement_def parseAsyncImport_def createUnknownImport_def
        blockForwardRefCall_def functionForwardRefCall_def returnBlock_def initialState_def
        showNat.simps digitChar_def)
  have c: "map_sum id fst (parseModule lazyAuthModuleFile initialState) = Inr (Some lazyAuthModule)"
    using parseModule_lazyAuthModuleFile by auto
  have d: "generateLines (resolveModuleDependencies [(''AuthModule'', lazyAuthModule)]) =
       [''digraph {'', ''  rankdir=LR;'',
        ''  node [shape=box, style=filled, fillcolor=lightgray];'', '''',
        nodeLine (''AuthModule'', lazyAuthModule), '''',
        plainEdge ''AuthModule'' ''UnknownModule_1'', ''}'']"
    by (simp add: generateLines_def resolveModuleDependencies_closed linkEntry_def linkModule_def
        modValues_def lazyAuthModule_def importEdge_linkImport importEdge_plain nodeLine_def)
  have e: "dashedEdge ''AuthModule'' ''UsersModule''
       \<notin> set (generateLines (resolveModuleDependencies [(''AuthModule'', lazyAuthModule)]))"
    unfolding d
    by (simp add: dashedEdge_def plainEdge_def nodeLine_def dquote_def escapeName_def)
  from a b c d e show ?thesis by simp
qed

text \<open>
  Claim C6, amended. An element of the imports array that is a call of the
  forward-reference wrapper whose first argument is an arrow function with the bare
  identifier \<open>c\<close> as its body (\<^verbatim>\<open>forwardRef(() => c)\<close>) yields an import named \<open>c\<close> with
  \<^verbatim>\<open>isForwardReference\<close> true. The edge statement that the renderer writes for that
  import, once enriched and linked, from the module registered under \<open>k\<close>, is the edge
  from \<open>k\<close> to \<open>c\<close> in the dashed, coloured style, and where the import stands among
  the imports of that module, the text that \<^verbatim>\<open>generate\<close> returns for the linked mapping
  holds this statement on a line of its own. Every other element yields an import
  without \<^verbatim>\<open>isForwardReference\<close>, whose edge statement is in the plain style; among
  them a call of the wrapper on any other inline function returning \<open>c\<close>, which yields
  the placeholder of \<^verbatim>\<open>createUnknownImport\<close>. The two styles differ.
\<close>

theorem forward_reference_import:
  "(arrowForwardReference c element \<longrightarrow>
      i_name (fst (importElement sf st element)) = c
      \<and> i_isForwardReference (fst (importElement sf st element)) = Some True
      \<and> importEdge k (linkImport ms
            ((fst (importElement sf st element))\<lparr>i_dependencies := deps\<rparr>))
          = dashedEdge k c
      \<and> ((k, m) \<in> set g
           \<and> (fst (importElement sf st element))\<lparr>i_dependencies := deps\<rparr> \<in> set (m_imports m)
         \<longrightarrow> (\<exists>pre post. generate (resolveModuleDependencies g) =
                 pre @ [CHR 0x0A] @ dashedEdge k c @ [CHR 0x0A] @ post)))
   \<and> ((\<forall>c'. \<not> arrowForwardReference c' element) \<longrightarrow>
      i_isForwardReference (fst (importElement sf st element)) = None
      \<and> importEdge k (linkImport ms
            ((fst (importElement sf st element))\<lparr>i_dependencies := deps\<rparr>))
          = plainEdge k (i_name (fst (importElement sf st element))))
   \<and> (forwardReferenceTo c element \<and> \<not> arrowForwardReference c element \<longrightarrow>
      importElement sf st element = createUnknownImport st)
   \<and> dashedEdge k c \<noteq> plainEdge k c"
proof -
  let ?imp = "fst (importElement sf st element)"
  let ?imp' = "?imp\<lparr>i_dependencies := deps\<rparr>"
  have 1: "i_name ?imp = c \<and> i_isForwardReference ?imp = Some True
      \<and> importEdge k (linkImport ms ?imp') = dashedEdge k c
      \<and> ((k, m) \<in> set g \<and> ?imp' \<in> set (m_imports m)
         \<longrightarrow> (\<exists>pre post. generate (resolveModuleDependencies g) =
                 pre @ [CHR 0x0A] @ dashedEdge k c @ [CHR 0x0A] @ post))"
    if a: "arrowForwardReference c element"
  proof -
    note n = arrowForwardReference_import(1) [OF a, of sf st]
      and f = arrowForwardReference_import(2) [OF a, of sf st]
    have e: "importEdge k ?imp' = dashedEdge k c"
      using importEdge_forward [of ?imp' k] n f by simp
    have "\<exists>pre post. generate (resolveModuleDependencies g) =
            pre @ [CHR 0x0A] @ dashedEdge k c @ [CHR 0x0A] @ post"
      if "(k, m) \<in> set g" "?imp' \<in> set (m_imports m)"
      using linked_import_emitted [OF that] e by simp
    with n f e show ?thesis by (simp add: importEdge_linkImport)
  qed
  have 2: "i_isForwardReference ?imp = None
      \<and> importEdge k (linkImport ms ?imp') = plainEdge k (i_name ?imp)"
    if o: "\<forall>c'. \<not> arrowForwardReference c' element"
  proof -
    note f = other_import_not_forward [OF o, of sf st]
    have "importEdge k ?imp' = plainEdge k (i_name ?imp)"
      using importEdge_plain [of ?imp' k] f by simp
    with f show ?thesis by (simp add: importEdge_linkImport)
  qed
  have 3: "forwardReferenceTo c element \<and> \<not> arrowForwardReference c element \<longrightarrow>
      importElement sf st element = createUnknownImport st"
    using returned_identifier_placeholder by blast
  from 1 2 3 dashed_not_plain show ?thesis by blast
qed

theorem forward_reference_import_witness:
  "arrowForwardReference ''AuthModule'' forwardRefAuthCall
   \<and> (''UsersModule'', usersModule) \<in> set projectGraph
   \<and> m_imports usersModule =
       [(fst (importElement usersModuleFile initialState forwardRefAuthCall))
          \<lparr>i_dependencies := Some []\<rparr>]
   \<and> i_name (fst (importElement usersModuleFile initialState forwardRefAuthCall)) = ''AuthModule''
   \<and> i_isForwardReference (fst (importElement usersModuleFile initialState forwardRefAuthCall))
       = Some True
   \<and> (\<exists>pre post. generate (resolveModuleDependencies projectGraph) =
         pre @ [CHR 0x0A] @ dashedEdge ''UsersModule'' ''AuthModule'' @ [CHR 0x0A] @ post)
   \<and> (\<forall>c'. \<not> arrowForwardReference c' blockForwardRefCall)
   \<and> forwardReferenceTo ''UsersModule'' blockForwardRefCall
   \<and> importElement lazyAuthModuleFile initialState blockForwardRefCall
       = createUnknownImport initialState
   \<and> i_isForwardReference (fst (importElement lazyAuthModuleFile initialState blockForwardRefCall))
       = None"
proof -
  let ?imp = "fst (importElement usersModuleFile initialState forwardRefAuthCall)"
  have a: "arrowForwardReference ''AuthModule'' forwardRefAuthCall"
    by (simp add: arrowForwardReference_def identifierNamed_def forwardRefAuthCall_def)
  have m: "(''UsersModule'', usersModule) \<in> set projectGraph"
    by (simp add: projectGraph_def)
  have i: "m_imports usersModule = [?imp\<lparr>i_dependencies := Some []\<rparr>]"
    by (simp add: usersModule_def forwardRefAuthCall_def usersModuleFile_def file_defs
        importElement_def parseAsyncImport_def resolveImportPath_def importMatches_def
        startsWith_def)
  then have i': "?imp\<lparr>i_dependencies := Some []\<rparr> \<in> set (m_imports usersModule)" by simp
  have o: "\<forall>c'. \<not> arrowForwardReference c' blockForwardRefCall"
    "forwardReferenceTo ''UsersModule'' blockForwardRefCall"
    by (simp_all add: arrowForwardReference_def forwardReferenceTo_def returnsIdentifier_def
        returnsOnly_def identifierNamed_def blockForwardRefCall_def returnBlock_def)
  note pos = forward_reference_import [of "''AuthModule''" forwardRefAuthCall usersModuleFile
      initialState "''UsersModule''" "modValues projectGraph" "Some []" usersModule projectGraph]
  note neg = forward_reference_import [of "''UsersModule''" blockForwardRefCall
      lazyAuthModuleFile initialState "''AuthModule''" "[]" "Some []" lazyAuthModule "[]"]
  from pos a m i' have p: "i_name ?imp = ''AuthModule''" "i_isForwardReference ?imp = Some True"
    "\<exists>pre post. generate (resolveModuleDependencies projectGraph) =
         pre @ [CHR 0x0A] @ dashedEdge ''UsersModule'' ''AuthModule'' @ [CHR 0x0A] @ post"
    by blast+
  from neg o have n: "importElement lazyAuthModuleFile initialState blockForwardRefCall
       = createUnknownImport initialState"
    "i_isForwardReference (fst (importElement lazyAuthModuleFile initialState blockForwardRefCall))
       = None"
    by blast+
  from a m i p o n show ?thesis by simp
qed

end
